theory Spec2Isabelle
  imports Main
begin

section \<open>Strings\<close>

text \<open>
  Python strings are modelled as \<open>string\<close>, one \<open>char\<close> per code point below 256.
  The source only ever compares against ASCII text (the digits of the date pattern, the
  word \<open>manifest\<close>, the separators \<open>/\<close>, \<open>-\<close> and \<open>_\<close>).
\<close>

definition is_digit :: "char \<Rightarrow> bool" where
  "is_digit c = (48 \<le> (of_char c :: nat) \<and> (of_char c :: nat) \<le> 57)"

definition digit_val :: "char \<Rightarrow> nat" where
  "digit_val c = (of_char c :: nat) - 48"

text \<open>\<open>str.lower\<close> on the ASCII letters; no other code point lowers to an ASCII letter
  of \<open>manifest\<close>.\<close>

definition lower_char :: "char \<Rightarrow> char" where
  "lower_char c =
     (if 65 \<le> (of_char c :: nat) \<and> (of_char c :: nat) \<le> 90
      then char_of ((of_char c :: nat) + 32) else c)"

definition lower :: "string \<Rightarrow> string" where
  "lower s = map lower_char s"

text \<open>\<open>str.split(sep)\<close> for a one-character separator: never the empty list.\<close>

fun split_on :: "char \<Rightarrow> string \<Rightarrow> string list" where
  "split_on sep [] = [[]]"
| "split_on sep (c # cs) =
     (if c = sep then [] # split_on sep cs
      else (case split_on sep cs of
              [] \<Rightarrow> [[c]]
            | w # ws \<Rightarrow> (c # w) # ws))"

text \<open>\<open>key.split("/")[-1].lower() == "manifest"\<close>, the test both listing loops make.\<close>

definition is_manifest :: "string \<Rightarrow> bool" where
  "is_manifest key = (lower (last (split_on (CHR ''/'') key)) = ''manifest'')"

text \<open>
  \<open>repr\<close> of a string: single quotes, or double quotes when the string holds a single
  quote and no double one; the quote in use and the backslash are escaped, tab, newline
  and carriage return are written \<open>\t\<close>, \<open>\n\<close>, \<open>\r\<close>, and every other
  code point that is not printable is written \<open>\xNN\<close>.
\<close>

definition hex_digit :: "nat \<Rightarrow> char" where
  "hex_digit n = (if n < 10 then char_of (48 + n) else char_of (87 + n))"

definition printable :: "char \<Rightarrow> bool" where
  "printable c =
     (let n = (of_char c :: nat) in (32 \<le> n \<and> n < 127) \<or> (161 \<le> n \<and> n \<noteq> 173))"

definition repr_char :: "char \<Rightarrow> char \<Rightarrow> string" where
  "repr_char quote c =
     (if c = quote \<or> c = CHR 0x5C then [CHR 0x5C, c]
      else if c = CHR 0x09 then [CHR 0x5C, CHR ''t'']
      else if c = CHR 0x0A then [CHR 0x5C, CHR ''n'']
      else if c = CHR 0x0D then [CHR 0x5C, CHR ''r'']
      else if printable c then [c]
      else [CHR 0x5C, CHR ''x'', hex_digit ((of_char c :: nat) div 16),
            hex_digit ((of_char c :: nat) mod 16)])"

definition py_repr :: "string \<Rightarrow> string" where
  "py_repr s =
     (let quote = (if CHR 0x27 \<in> set s \<and> CHR 0x22 \<notin> set s then CHR 0x22 else CHR 0x27)
      in [quote] @ concat (map (repr_char quote) s) @ [quote])"

text \<open>A natural number in decimal, as \<open>%i\<close> and \<open>%zd\<close> format it.\<close>

fun show_nat :: "nat \<Rightarrow> string" where
  "show_nat n =
     (if n < 10 then [char_of (48 + n)]
      else show_nat (n div 10) @ [char_of (48 + n mod 10)])"

section \<open>Dates\<close>

text \<open>A \<open>datetime.date\<close>: year, month, day, compared as that triple.\<close>

datatype date = Date nat nat nat

fun date_le :: "date \<Rightarrow> date \<Rightarrow> bool" where
  "date_le (Date y m d) (Date y' m' d') =
     (y < y' \<or> (y = y' \<and> (m < m' \<or> (m = m' \<and> d \<le> d'))))"

fun date_lt :: "date \<Rightarrow> date \<Rightarrow> bool" where
  "date_lt (Date y m d) (Date y' m' d') =
     (y < y' \<or> (y = y' \<and> (m < m' \<or> (m = m' \<and> d < d'))))"

definition is_leap :: "nat \<Rightarrow> bool" where
  "is_leap y = (y mod 4 = 0 \<and> (y mod 100 \<noteq> 0 \<or> y mod 400 = 0))"

definition days_in_month :: "nat \<Rightarrow> nat \<Rightarrow> nat" where
  "days_in_month y m =
     (if m = 2 then (if is_leap y then 29 else 28)
      else if m = 4 \<or> m = 6 \<or> m = 9 \<or> m = 11 then 30 else 31)"

fun digits_val :: "string \<Rightarrow> nat \<Rightarrow> nat" where
  "digits_val [] acc = acc"
| "digits_val (c # cs) acc = digits_val cs (10 * acc + digit_val c)"

text \<open>
  \<open>datetime.date.fromisoformat\<close> on a string, as the C implementation of CPython
  parses it. The length is that of the UTF-8 encoding, and \<open>parse_digits n\<close> reads
  exactly \<open>n\<close> decimal digits.
\<close>

definition byte_len :: "string \<Rightarrow> nat" where
  "byte_len s = length s + length (filter (\<lambda>c. 128 \<le> (of_char c :: nat)) s)"

definition parse_digits :: "nat \<Rightarrow> string \<Rightarrow> (nat \<times> string) option" where
  "parse_digits n s =
     (if length (take n s) = n \<and> list_all is_digit (take n s)
      then Some (digits_val (take n s) 0, drop n s) else None)"

text \<open>The proleptic Gregorian ordinal of a date and back, and the Monday that opens the
  first ISO week of a year, as \<open>_datetimemodule.c\<close> computes them.\<close>

definition days_before_year :: "nat \<Rightarrow> nat" where
  "days_before_year y = (y - 1) * 365 + (y - 1) div 4 - (y - 1) div 100 + (y - 1) div 400"

definition days_before_month :: "nat \<Rightarrow> nat \<Rightarrow> nat" where
  "days_before_month y m =
     [0, 0, 31, 59, 90, 120, 151, 181, 212, 243, 273, 304, 334] ! m
     + (if m > 2 \<and> is_leap y then 1 else 0)"

definition ymd_to_ord :: "nat \<Rightarrow> nat \<Rightarrow> nat \<Rightarrow> nat" where
  "ymd_to_ord y m d = days_before_year y + days_before_month y m + d"

definition ord_to_ymd :: "nat \<Rightarrow> nat \<times> nat \<times> nat" where
  "ord_to_ymd ordinal =
     (let n0 = ordinal - 1;
          n400 = n0 div 146097; na = n0 mod 146097;
          n100 = na div 36524; nb = na mod 36524;
          n4 = nb div 1461; nc = nb mod 1461;
          n1 = nc div 365; n = nc mod 365;
          year = 400 * n400 + 1 + n100 * 100 + n4 * 4 + n1
      in if n1 = 4 \<or> n100 = 4 then (year - 1, 12, 31)
         else
           (let leapyear = (n1 = 3 \<and> (n4 \<noteq> 24 \<or> n100 = 3));
                month = (n + 50) div 32;
                preceding = [0, 0, 31, 59, 90, 120, 151, 181, 212, 243, 273, 304, 334] ! month
                            + (if month > 2 \<and> leapyear then 1 else 0)
            in if preceding > n
               then (year, month - 1, n + days_in_month year (month - 1) + 1 - preceding)
               else (year, month, n - preceding + 1)))"

definition weekday :: "nat \<Rightarrow> nat \<Rightarrow> nat \<Rightarrow> nat" where
  "weekday y m d = (ymd_to_ord y m d + 6) mod 7"

definition iso_week1_monday :: "nat \<Rightarrow> nat" where
  "iso_week1_monday year =
     (let first_day = ymd_to_ord year 1 1;
          first_weekday = (first_day + 6) mod 7;
          week1_monday = first_day - first_weekday
      in if first_weekday > 3 then week1_monday + 7 else week1_monday)"

text \<open>
  \<open>iso_to_ymd\<close>: the year, month and day of an ISO week date, \<open>None\<close> when the week
  or the weekday is out of range. Week 53 exists in the years that start on a Thursday
  and in the leap years that start on a Wednesday. The function does not check the year:
  for the year \<open>0000\<close> its arithmetic leaves the table of the months, and the month it
  yields is below 1, which the range check of the date then refuses.
\<close>

definition iso_to_ymd :: "nat \<Rightarrow> nat \<Rightarrow> nat \<Rightarrow> (nat \<times> nat \<times> nat) option" where
  "iso_to_ymd iso_year iso_week iso_day =
     (if (iso_week = 0 \<or> 53 \<le> iso_week)
         \<and> \<not> (iso_week = 53 \<and> 1 \<le> iso_year
               \<and> (weekday iso_year 1 1 = 3 \<or> (weekday iso_year 1 1 = 2 \<and> is_leap iso_year)))
      then None
      else if iso_day = 0 \<or> 8 \<le> iso_day then None
      else if iso_year = 0 then Some (1, 0, 1)
      else Some (ord_to_ymd (iso_week1_monday iso_year + (iso_week - 1) * 7 + iso_day - 1)))"

text \<open>
  \<open>parse_isoformat_date\<close> up to Python 3.10: the ten characters \<open>YYYY-MM-DD\<close> and
  nothing else. \<open>None\<close> is the failure that becomes \<open>Invalid isoformat string\<close>.
\<close>

definition iso_fields_310 :: "string \<Rightarrow> (nat \<times> nat \<times> nat) option" where
  "iso_fields_310 s =
     (if byte_len s \<noteq> 10 then None
      else case parse_digits 4 s of
        None \<Rightarrow> None
      | Some (year, r1) \<Rightarrow>
          if take 1 r1 \<noteq> ''-'' then None
          else case parse_digits 2 (drop 1 r1) of
            None \<Rightarrow> None
          | Some (month, r2) \<Rightarrow>
              if take 1 r2 \<noteq> ''-'' then None
              else case parse_digits 2 (drop 1 r2) of
                None \<Rightarrow> None
              | Some (day, r3) \<Rightarrow> Some (year, month, day))"

text \<open>
  \<open>parse_isoformat_date\<close> of Python 3.11: a length of 7, 8 or 10 bytes, four digits of
  year, an optional hyphen, then either \<open>W\<close>, two digits of week and, if anything
  follows, the hyphen again (when the first was there) and one digit of weekday, or two
  digits of month, the hyphen again and two digits of day. What follows the last field
  read is not looked at.
\<close>

definition iso_fields_311 :: "string \<Rightarrow> (nat \<times> nat \<times> nat) option" where
  "iso_fields_311 s =
     (if byte_len s \<notin> {7, 8, 10} then None
      else case parse_digits 4 s of
        None \<Rightarrow> None
      | Some (year, r0) \<Rightarrow>
          (let uses_separator = (take 1 r0 = ''-'');
               r1 = (if uses_separator then drop 1 r0 else r0)
           in if take 1 r1 = ''W'' then
                (case parse_digits 2 (drop 1 r1) of
                   None \<Rightarrow> None
                 | Some (iso_week, r2) \<Rightarrow>
                     if r2 \<noteq> [] then
                       (if uses_separator \<and> take 1 r2 \<noteq> ''-'' then None
                        else case parse_digits 1 (if uses_separator then drop 1 r2 else r2) of
                               None \<Rightarrow> None
                             | Some (iso_day, r3) \<Rightarrow> iso_to_ymd year iso_week iso_day)
                     else iso_to_ymd year iso_week 1)
              else
                (case parse_digits 2 r1 of
                   None \<Rightarrow> None
                 | Some (month, r2) \<Rightarrow>
                     if uses_separator \<and> take 1 r2 \<noteq> ''-'' then None
                     else case parse_digits 2 (if uses_separator then drop 1 r2 else r2) of
                            None \<Rightarrow> None
                          | Some (day, r3) \<Rightarrow> Some (year, month, day))))"

text \<open>The interpreter decides which of the two parsers runs: \<open>extended\<close> is set for
  Python 3.11, which accepts the further ISO 8601 forms.\<close>

definition iso_fields :: "bool \<Rightarrow> string \<Rightarrow> (nat \<times> nat \<times> nat) option" where
  "iso_fields extended s = (if extended then iso_fields_311 s else iso_fields_310 s)"

text \<open>\<open>check_date_args\<close>: the range check of the constructor, with its messages.\<close>

definition check_date_args :: "nat \<Rightarrow> nat \<Rightarrow> nat \<Rightarrow> string option" where
  "check_date_args year month day =
     (if year < 1 \<or> 9999 < year then Some (''year '' @ show_nat year @ '' is out of range'')
      else if month < 1 \<or> 12 < month then Some ''month must be in 1..12''
      else if day < 1 \<or> days_in_month year month < day
           then Some ''day is out of range for month''
      else None)"

text \<open>\<open>fromisoformat\<close> on a string: the date, or the message of the
  \<open>ValueError\<close>.\<close>

definition fromisoformat_str :: "bool \<Rightarrow> string \<Rightarrow> string + date" where
  "fromisoformat_str extended s =
     (case iso_fields extended s of
        None \<Rightarrow> Inl (''Invalid isoformat string: '' @ py_repr s)
      | Some (y, m, d) \<Rightarrow>
          (case check_date_args y m d of
             Some msg \<Rightarrow> Inl msg
           | None \<Rightarrow> Inr (Date y m d)))"

definition fromisoformat :: "bool \<Rightarrow> string \<Rightarrow> date option" where
  "fromisoformat extended s =
     (case fromisoformat_str extended s of Inl msg \<Rightarrow> None | Inr d \<Rightarrow> Some d)"

text \<open>\<open>__check_date_fmt\<close>: the \<open>try\<close>/\<open>except ValueError\<close> around the parse.\<close>

definition check_date_fmt :: "bool \<Rightarrow> string \<Rightarrow> bool" where
  "check_date_fmt extended s =
     (case fromisoformat extended s of Some _ \<Rightarrow> True | None \<Rightarrow> False)"

section \<open>The date pattern\<close>

text \<open>
  \<open>re.compile(r"(updated_date=([0-9]+-[0-9]+-[0-9]+))").search(txt)\<close>.
  \<open>match_here\<close> is the match anchored at the head of the text and gives group 2. Each
  \<open>[0-9]+\<close> is greedy and is followed by a character that is no digit, so backtracking
  to a shorter run can never succeed: the run taken is the longest one.
  \<open>search\<close> tries the start positions from left to right, as \<open>search\<close> does.
\<close>

definition match_here :: "string \<Rightarrow> string option" where
  "match_here s =
     (if take 13 s = ''updated_date='' then
        (let r1 = drop 13 s; d1 = takeWhile is_digit r1; r2 = dropWhile is_digit r1 in
         if d1 = [] \<or> take 1 r2 \<noteq> ''-'' then None
         else
           (let r3 = drop 1 r2; d2 = takeWhile is_digit r3; r4 = dropWhile is_digit r3 in
            if d2 = [] \<or> take 1 r4 \<noteq> ''-'' then None
            else
              (let r5 = drop 1 r4; d3 = takeWhile is_digit r5 in
               if d3 = [] then None
               else Some (d1 @ ''-'' @ d2 @ ''-'' @ d3))))
      else None)"

fun search :: "string \<Rightarrow> string option" where
  "search [] = match_here []"
| "search (c # cs) =
     (case match_here (c # cs) of Some d \<Rightarrow> Some d | None \<Rightarrow> search cs)"

text \<open>\<open>__extract_date\<close>: group 2 of the match, or the empty string.\<close>

definition extract_date :: "string \<Rightarrow> string" where
  "extract_date s = (case search s of Some d \<Rightarrow> d | None \<Rightarrow> [])"

section \<open>Python values and errors\<close>

text \<open>
  The arguments of \<open>load_table\<close> are checked at run time with \<open>isinstance\<close>, so they
  are values of any type: the fragment of Python values the checks tell apart.
  \<open>PDate\<close> is a \<open>datetime.date\<close> object.
\<close>

datatype pyval =
    PNone
  | PBool bool
  | PInt int
  | PStr string
  | PList "pyval list"
  | PDate date

datatype py_error =
    AssertionError string
  | ValueError string
  | TypeError string
  | AttributeError string
  | EngineError string
  | ClientError string

definition sq :: string where
  "sq = [CHR 0x27]"

text \<open>The name of the type of a value, and the text of \<open>type(v)\<close> inside an
  f-string.\<close>

fun type_name :: "pyval \<Rightarrow> string" where
  "type_name PNone = ''NoneType''"
| "type_name (PBool _) = ''bool''"
| "type_name (PInt _) = ''int''"
| "type_name (PStr _) = ''str''"
| "type_name (PList _) = ''list''"
| "type_name (PDate _) = ''datetime.date''"

definition type_text :: "pyval \<Rightarrow> string" where
  "type_text v = ''<class '' @ sq @ type_name v @ sq @ ''>''"

text \<open>\<open>isinstance(v, str)\<close>, \<open>isinstance(v, list)\<close> and \<open>isinstance(v, int)\<close>; a
  \<open>bool\<close> is an \<open>int\<close> in Python.\<close>

fun is_str :: "pyval \<Rightarrow> bool" where
  "is_str (PStr _) = True"
| "is_str _ = False"

fun is_list :: "pyval \<Rightarrow> bool" where
  "is_list (PList _) = True"
| "is_list _ = False"

fun is_int :: "pyval \<Rightarrow> bool" where
  "is_int (PInt _) = True"
| "is_int (PBool _) = True"
| "is_int _ = False"

text \<open>\<open>all([isinstance(x, T) for x in v])\<close> for a list \<open>v\<close>.\<close>

fun all_elems :: "(pyval \<Rightarrow> bool) \<Rightarrow> pyval \<Rightarrow> bool" where
  "all_elems P (PList xs) = list_all P xs"
| "all_elems P _ = False"

text \<open>\<open>datetime.date.fromisoformat(v)\<close> on any value: a \<open>TypeError\<close> unless \<open>v\<close>
  is a string, a \<open>ValueError\<close> when the string is no date.\<close>

fun fromisoformat_val :: "bool \<Rightarrow> pyval \<Rightarrow> py_error + date" where
  "fromisoformat_val extended (PStr s) =
     (case fromisoformat_str extended s of
        Inl msg \<Rightarrow> Inl (ValueError msg)
      | Inr d \<Rightarrow> Inr d)"
| "fromisoformat_val extended _ = Inl (TypeError ''fromisoformat: argument must be str'')"


section \<open>The store, the staging directories and the remote bucket\<close>

datatype table_kind = Temporary | Durable

type_synonym row = string

type_synonym schema = "(string \<times> string) list"

text \<open>
  The \<open>SELECT\<close> that \<open>load_table\<close> formats:
  \<open>SELECT {cols} FROM read_ndjson_auto('{download_dir}/*', columns={schema}){limit}\<close>.
  \<open>sel_cols\<close> is the value formatted for \<open>{cols}\<close>, \<open>sel_schema\<close> what
  \<open>__get_schema\<close> returned (\<open>None\<close> prints as \<open>None\<close>), and \<open>sel_limit\<close> the
  value after \<open>LIMIT\<close>, \<open>PNone\<close> standing for the empty suffix.
\<close>

record select_clause =
  sel_cols :: pyval
  sel_dir :: string
  sel_schema :: "schema option"
  sel_limit :: pyval

text \<open>The three statements \<open>load_table\<close> can send to the connection.\<close>

datatype sql =
    InsertInto string select_clause
  | CreateTemporaryTable string select_clause
  | CreateTable string select_clause

text \<open>What the call does to the outside, in order: the I/O log of the model.\<close>

datatype event =
    MakeDirs string
  | ListObjects string
  | HeadObject string
  | LogError string py_error
  | Submit string
  | QueryTables string
  | Execute sql "py_error + row list"
  | RmTree string

text \<open>
  The mutable world of one parser: the tables of the connection, the local directories
  with the names of the files they hold, and the I/O log.
\<close>

record state =
  tables :: "string \<rightharpoonup> (table_kind \<times> row list)"
  dirs :: "string \<rightharpoonup> string list"
  trace :: "event list"

text \<open>
  What the call reads from the outside. \<open>list_objects\<close> gives the pages of the
  paginator for a prefix, each the keys of its \<open>Contents\<close> or the error its request
  raised; \<open>head_object\<close> the size of an object or the error of the lookup;
  \<open>copy_ok\<close> whether the worker's download of a key ends with the file written;
  \<open>read_ndjson\<close> what the engine's reader returns for a \<open>SELECT\<close> over the files of
  the staging directory. \<open>works_schema\<close> is the constant \<open>WORKS_SCHEMA\<close> of the module
  \<open>utils\<close>, taken as a parameter. \<open>iso_extended\<close> tells whether the interpreter
  is Python 3.11, whose \<open>fromisoformat\<close> accepts more forms than that of 3.10.
\<close>

record env =
  iso_extended :: bool
  today :: date
  works_schema :: schema
  list_objects :: "string \<Rightarrow> (py_error + string list) list"
  head_object :: "string \<Rightarrow> py_error + nat"
  copy_ok :: "string \<Rightarrow> bool"
  read_ndjson :: "select_clause \<Rightarrow> string list \<Rightarrow> py_error + row list"

text \<open>
  The attributes of an \<open>OpenAlexParser\<close>. \<open>__init__\<close> assigns the client, the worker
  count, the persistence path, the connection and the progress display; the client, the
  connection and the display are the \<open>env\<close> and the \<open>state\<close>. No statement of the class
  assigns \<open>self.__obj_type\<close>, which \<open>__get_start_date\<close> reads: \<open>obj_type_attr\<close> is
  that attribute, \<open>None\<close> while the object has none.
\<close>

record parser =
  n_workers :: nat
  persist_path :: "string option"
  obj_type_attr :: "string option"

definition init :: "nat \<Rightarrow> string option \<Rightarrow> parser" where
  "init n p = \<lparr>n_workers = n, persist_path = p, obj_type_attr = None\<rparr>"

definition log_event :: "event \<Rightarrow> state \<Rightarrow> state" where
  "log_event e st = st\<lparr>trace := trace st @ [e]\<rparr>"

definition prefix_of :: "string \<Rightarrow> string" where
  "prefix_of obj_type = ''data/'' @ obj_type @ ''/''"

section \<open>RemoteCatalog\<close>

text \<open>
  \<open>__get_start_date\<close>. The inner loop over the keys of one page: \<open>Inr None\<close> when the
  page is exhausted, \<open>Inr (Some dat)\<close> at the \<open>return dat\<close>, \<open>Inl\<close> when
  \<open>fromisoformat\<close> raises. The \<open>and\<close> of the source parses only a non-empty text.
\<close>

fun get_start_date_page :: "bool \<Rightarrow> date \<Rightarrow> string list \<Rightarrow> py_error + string option" where
  "get_start_date_page extended start_date [] = Inr None"
| "get_start_date_page extended start_date (key # keys) =
     (if is_manifest key then get_start_date_page extended start_date keys
      else
        (let dat = extract_date key in
         if dat \<noteq> [] then
           (case fromisoformat_val extended (PStr dat) of
              Inl e \<Rightarrow> Inl e
            | Inr d \<Rightarrow>
                if date_lt d start_date then Inr (Some dat)
                else get_start_date_page extended start_date keys)
         else get_start_date_page extended start_date keys))"

text \<open>The outer loop over the pages; falling off its end returns \<open>None\<close>.\<close>

fun get_start_date_pages ::
  "bool \<Rightarrow> date \<Rightarrow> (py_error + string list) list \<Rightarrow> py_error + pyval" where
  "get_start_date_pages extended start_date [] = Inr PNone"
| "get_start_date_pages extended start_date (Inl e # pages) = Inl e"
| "get_start_date_pages extended start_date (Inr keys # pages) =
     (case get_start_date_page extended start_date keys of
        Inl e \<Rightarrow> Inl e
      | Inr (Some dat) \<Rightarrow> Inr (PStr dat)
      | Inr None \<Rightarrow> get_start_date_pages extended start_date pages)"

text \<open>The error of reading \<open>self.__obj_type\<close> on an object without that attribute.\<close>

definition no_obj_type :: py_error where
  "no_obj_type =
     AttributeError (sq @ ''OpenAlexParser'' @ sq @ '' object has no attribute ''
                     @ sq @ ''_OpenAlexParser__obj_type'' @ sq)"

text \<open>The prefix is formatted from \<open>self.__obj_type\<close> before the first page is
  requested.\<close>

definition get_start_date :: "parser \<Rightarrow> env \<Rightarrow> state \<Rightarrow> (py_error + pyval) \<times> state" where
  "get_start_date self env st =
     (case obj_type_attr self of
        None \<Rightarrow> (Inl no_obj_type, st)
      | Some ot \<Rightarrow>
          (get_start_date_pages (iso_extended env) (today env)
             (list_objects env (prefix_of ot)),
           log_event (ListObjects (prefix_of ot)) st))"

text \<open>\<open>__get_files\<close>: the loop over the keys of one page, appending to \<open>file_list\<close>.\<close>

fun get_files_page ::
  "bool \<Rightarrow> date \<Rightarrow> date \<Rightarrow> string list \<Rightarrow> string list \<Rightarrow> py_error + string list" where
  "get_files_page extended start_date end_date [] file_list = Inr file_list"
| "get_files_page extended start_date end_date (key # keys) file_list =
     (if is_manifest key then get_files_page extended start_date end_date keys file_list
      else
        (case fromisoformat_val extended (PStr (extract_date key)) of
           Inl e \<Rightarrow> Inl e
         | Inr d \<Rightarrow>
             if date_le start_date d \<and> date_le d end_date
             then get_files_page extended start_date end_date keys (file_list @ [key])
             else get_files_page extended start_date end_date keys file_list))"

fun get_files_pages ::
  "bool \<Rightarrow> date \<Rightarrow> date \<Rightarrow> (py_error + string list) list \<Rightarrow> string list
     \<Rightarrow> py_error + string list" where
  "get_files_pages extended start_date end_date [] file_list = Inr file_list"
| "get_files_pages extended start_date end_date (Inl e # pages) file_list = Inl e"
| "get_files_pages extended start_date end_date (Inr keys # pages) file_list =
     (case get_files_page extended start_date end_date keys file_list of
        Inl e \<Rightarrow> Inl e
      | Inr file_list' \<Rightarrow> get_files_pages extended start_date end_date pages file_list')"

text \<open>The two bounds are parsed first, before the listing is requested.\<close>

definition get_files ::
  "env \<Rightarrow> string \<Rightarrow> pyval \<Rightarrow> pyval \<Rightarrow> state \<Rightarrow> (py_error + string list) \<times> state" where
  "get_files env obj_type start_date end_date st =
     (case fromisoformat_val (iso_extended env) start_date of
        Inl e \<Rightarrow> (Inl e, st)
      | Inr sd \<Rightarrow>
          (case fromisoformat_val (iso_extended env) end_date of
             Inl e \<Rightarrow> (Inl e, st)
           | Inr ed \<Rightarrow>
               (get_files_pages (iso_extended env) sd ed
                  (list_objects env (prefix_of obj_type)) [],
                log_event (ListObjects (prefix_of obj_type)) st)))"


section \<open>Downloader\<close>

text \<open>\<open>s.replace(pat, "")\<close>: every occurrence of \<open>pat\<close>, left to right, without
  overlap. The counter is the number of characters of a found occurrence still to drop.\<close>

fun remove_from :: "string \<Rightarrow> nat \<Rightarrow> string \<Rightarrow> string" where
  "remove_from pat n [] = []"
| "remove_from pat (Suc n) (c # cs) = remove_from pat n cs"
| "remove_from pat 0 (c # cs) =
     (if pat \<noteq> [] \<and> take (length pat) (c # cs) = pat
      then remove_from pat (length pat - 1) cs
      else c # remove_from pat 0 cs)"

definition remove_all :: "string \<Rightarrow> string \<Rightarrow> string" where
  "remove_all pat s = remove_from pat 0 s"

text \<open>
  \<open>int(s)\<close> for a string. White space is skipped before the number and after it:
  tab, line feed, vertical tab, form feed, carriage return and space, and the two white
  space code points above 126, which the conversion first turns into spaces. Between the
  two come an optional sign and a run of decimal digits in which single underscores may
  separate two digits. A run of more than 4300 digits is refused before what follows it
  is looked at.
\<close>

definition c_space :: "char \<Rightarrow> bool" where
  "c_space c = ((of_char c :: nat) \<in> {9, 10, 11, 12, 13, 32, 133, 160})"

fun digits_body :: "string \<Rightarrow> bool" where
  "digits_body [] = False"
| "digits_body [c] = is_digit c"
| "digits_body (c # c' # cs) =
     (is_digit c \<and>
      (if c' = CHR ''_'' then digits_body cs else digits_body (c' # cs)))"

definition py_int :: "string \<Rightarrow> py_error + int" where
  "py_int s =
     (let t = dropWhile c_space s;
          neg = (take 1 t = ''-'');
          u = (if take 1 t = ''-'' \<or> take 1 t = ''+'' then drop 1 t else t);
          run = takeWhile (\<lambda>c. is_digit c \<or> c = CHR ''_'') u;
          rest = dropWhile c_space (dropWhile (\<lambda>c. is_digit c \<or> c = CHR ''_'') u);
          ds = filter is_digit run
      in if \<not> digits_body run then
           Inl (ValueError (''invalid literal for int() with base 10: '' @ py_repr s))
         else if 4300 < length ds then
           Inl (ValueError
                 (''Exceeds the limit (4300 digits) for integer string conversion: value has ''
                  @ show_nat (length ds)
                  @ '' digits; use sys.set_int_max_str_digits() to increase the limit''))
         else if rest \<noteq> [] then
           Inl (ValueError (''invalid literal for int() with base 10: '' @ py_repr s))
         else Inr ((if neg then - 1 else 1) * int (digits_val ds 0)))"

text \<open>\<open>f.split("/")[-1].replace("part_", "").replace(".gz", "")\<close>\<close>

definition part_text :: "string \<Rightarrow> string" where
  "part_text f = remove_all ''.gz'' (remove_all ''part_'' (last (split_on (CHR ''/'') f)))"

text \<open>\<open>n in parts\<close> for an integer \<open>n\<close>: a list compares its elements with \<open>==\<close>,
  a string refuses an integer on the left, the other values are not iterable.\<close>

fun py_eq_int :: "pyval \<Rightarrow> int \<Rightarrow> bool" where
  "py_eq_int (PInt m) n = (m = n)"
| "py_eq_int (PBool b) n = ((if b then 1 else 0) = n)"
| "py_eq_int _ n = False"

fun py_contains :: "pyval \<Rightarrow> int \<Rightarrow> py_error + bool" where
  "py_contains (PList ps) n = Inr (list_ex (\<lambda>p. py_eq_int p n) ps)"
| "py_contains (PStr s) n =
     Inl (TypeError (sq @ ''in <string>'' @ sq @ '' requires string as left operand, not int''))"
| "py_contains v n =
     Inl (TypeError (''argument of type '' @ sq @ type_name v @ sq @ '' is not iterable''))"

text \<open>The list comprehension of \<open>__download_files\<close>, run when \<open>parts != "*"\<close>.\<close>

fun filter_parts :: "pyval \<Rightarrow> string list \<Rightarrow> py_error + string list" where
  "filter_parts parts [] = Inr []"
| "filter_parts parts (f # fs) =
     (case py_int (part_text f) of
        Inl e \<Rightarrow> Inl e
      | Inr n \<Rightarrow>
          (case py_contains parts n of
             Inl e \<Rightarrow> Inl e
           | Inr b \<Rightarrow>
               (case filter_parts parts fs of
                  Inl e \<Rightarrow> Inl e
                | Inr rest \<Rightarrow> Inr (if b then f # rest else rest))))"

fun join :: "string \<Rightarrow> string list \<Rightarrow> string" where
  "join sep [] = []"
| "join sep [x] = x"
| "join sep (x # y # ys) = x @ sep @ join sep (y # ys)"

text \<open>\<open>"_".join(key.split("/")[-2:])\<close>, the name of the staged file.\<close>

definition staged_name :: "string \<Rightarrow> string" where
  "staged_name key =
     (let segs = split_on (CHR ''/'') key in join ''_'' (drop (length segs - 2) segs))"

text \<open>
  \<open>__copy_data\<close>, the task a worker runs. Its exceptions stay in the future, which
  nobody reads, so all it does to the world is write the file when it succeeds. The
  pool is modelled as running each task at its submission.
\<close>

definition copy_data :: "env \<Rightarrow> string \<Rightarrow> string \<Rightarrow> state \<Rightarrow> state" where
  "copy_data env key download_dir st =
     (case dirs st download_dir of
        None \<Rightarrow> st
      | Some files \<Rightarrow>
          if copy_ok env key
          then st\<lparr>dirs := (dirs st)(download_dir \<mapsto> List.insert (staged_name key) files)\<rparr>
          else st)"

text \<open>The loop \<open>for f in files\<close> with its \<open>try\<close>/\<open>except Exception\<close>.\<close>

fun fetch_all :: "env \<Rightarrow> string \<Rightarrow> string list \<Rightarrow> state \<Rightarrow> state" where
  "fetch_all env download_dir [] st = st"
| "fetch_all env download_dir (f # fs) st =
     (case head_object env f of
        Inl e \<Rightarrow>
          fetch_all env download_dir fs
            (log_event (LogError f e) (log_event (HeadObject f) st))
      | Inr file_sz \<Rightarrow>
          fetch_all env download_dir fs
            (copy_data env f download_dir
               (log_event (Submit f) (log_event (HeadObject f) st))))"

definition download_files ::
  "env \<Rightarrow> string \<Rightarrow> pyval \<Rightarrow> pyval \<Rightarrow> pyval \<Rightarrow> string \<Rightarrow> state
     \<Rightarrow> (py_error + unit) \<times> state" where
  "download_files env obj_type start_date end_date parts download_dir st =
     (case get_files env obj_type start_date end_date st of
        (Inl e, st1) \<Rightarrow> (Inl e, st1)
      | (Inr files, st1) \<Rightarrow>
          (case (if parts \<noteq> PStr ''*'' then filter_parts parts files else Inr files) of
             Inl e \<Rightarrow> (Inl e, st1)
           | Inr files' \<Rightarrow> (Inr (), fetch_all env download_dir files' st1)))"


section \<open>TableLoader and the facade\<close>

text \<open>\<open>__get_schema\<close>: the schema of \<open>works\<close>; any other type falls off the end
  of the function, which returns \<open>None\<close>.\<close>

definition get_schema :: "env \<Rightarrow> string \<Rightarrow> schema option" where
  "get_schema env obj_type = (if obj_type = ''works'' then Some (works_schema env) else None)"

definition accepted_types :: "string list" where
  "accepted_types =
     [''works'', ''authors'', ''sources'', ''institutions'', ''topics'',
      ''keywords'', ''publishers'', ''funders'', ''geo'']"

fun str_text :: "pyval \<Rightarrow> string" where
  "str_text (PStr s) = s"
| "str_text _ = []"

text \<open>\<open>not self.__check_date_fmt(v)\<close> for an argument that the check before it has
  found to be a string.\<close>

fun bad_date_fmt :: "bool \<Rightarrow> pyval \<Rightarrow> bool" where
  "bad_date_fmt extended (PStr s) = (\<not> check_date_fmt extended s)"
| "bad_date_fmt extended _ = False"

text \<open>
  The checks that open \<open>load_table\<close>, in the order of the source, each with its message.
  The first that fails ends the call: \<open>Some\<close> is the error raised, \<open>None\<close> means that all
  passed.
\<close>

definition validate ::
  "env \<Rightarrow> pyval \<Rightarrow> pyval \<Rightarrow> pyval \<Rightarrow> pyval \<Rightarrow> pyval \<Rightarrow> pyval \<Rightarrow> py_error option" where
  "validate env obj_type cols limit start_date end_date parts =
     (if \<not> is_str obj_type then
        Some (AssertionError (''Expected obj_type to be str. Found '' @ type_text obj_type))
      else if str_text obj_type \<notin> set accepted_types then
        Some (AssertionError (''Expected obj_type to either '' @ join ''/'' accepted_types
                              @ ''. Found '' @ str_text obj_type))
      else if start_date \<noteq> PNone \<and> \<not> is_str start_date then
        Some (ValueError (''Expected start_date to be of type '' @ sq @ ''str'' @ sq
                          @ ''. Found type '' @ type_text start_date))
      else if end_date \<noteq> PNone \<and> \<not> is_str end_date then
        Some (ValueError (''Expected end_date to be of type '' @ sq @ ''str'' @ sq
                          @ ''. Found type '' @ type_text end_date))
      else if start_date \<noteq> PNone \<and> bad_date_fmt (iso_extended env) start_date then
        Some (ValueError (''Expected end_date of the format '' @ sq @ ''YYYY-mm-dd'' @ sq))
      else if end_date \<noteq> PNone \<and> bad_date_fmt (iso_extended env) end_date then
        Some (ValueError (''Expected end_date of the format '' @ sq @ ''YYYY-mm-dd'' @ sq))
      else if parts \<noteq> PNone \<and> \<not> is_list parts then
        Some (ValueError (''Expected parts to be of type '' @ sq @ ''list'' @ sq
                          @ ''. Found '' @ type_text parts))
      else if parts \<noteq> PNone \<and> \<not> all_elems is_int parts then
        Some (ValueError ''Expected parts to be a list of integers.'')
      else if cols \<noteq> PNone \<and> \<not> is_list cols then
        Some (ValueError (''Expected cols to be of type '' @ sq @ ''list'' @ sq
                          @ ''. Found type '' @ type_text cols))
      else if cols \<noteq> PNone \<and> \<not> all_elems is_str cols then
        Some (ValueError (''Expected cols to be of type '' @ sq @ ''list<str>'' @ sq))
      else if limit \<noteq> PNone \<and> \<not> is_int limit then
        Some (ValueError (''Expected limit to be of type '' @ sq @ ''int'' @ sq
                          @ ''. Found type '' @ type_text limit))
      else None)"

text \<open>\<open>os.makedirs(d, exist_ok=True)\<close> and \<open>shutil.rmtree(d)\<close> on the directories
  of the model; the staged files lie directly in the staging directory.\<close>

definition makedirs :: "string \<Rightarrow> state \<Rightarrow> state" where
  "makedirs d st =
     log_event (MakeDirs d)
       (st\<lparr>dirs := (dirs st)(d \<mapsto> (case dirs st d of None \<Rightarrow> [] | Some files \<Rightarrow> files))\<rparr>)"

definition rmtree :: "string \<Rightarrow> state \<Rightarrow> state" where
  "rmtree d st = log_event (RmTree d) (st\<lparr>dirs := (dirs st)(d := None)\<rparr>)"

definition files_in :: "state \<Rightarrow> string \<Rightarrow> string list" where
  "files_in st d = (case dirs st d of None \<Rightarrow> [] | Some files \<Rightarrow> files)"

text \<open>The catalog query of \<open>load_table\<close>: the number of entries of
  \<open>duckdb_tables()\<close> whose \<open>table_name\<close> is \<open>obj_type\<close>.\<close>

definition count_tables :: "state \<Rightarrow> string \<Rightarrow> nat" where
  "count_tables st name = (case tables st name of None \<Rightarrow> 0 | Some _ \<Rightarrow> 1)"

text \<open>
  The engine running one statement: the reader's rows are appended to the table by
  \<open>INSERT INTO\<close> and become the table by \<open>CREATE TABLE ... AS\<close>; a reader's error, an
  insert into no table and a creation over a table fail and change nothing.
\<close>

definition run_select :: "env \<Rightarrow> state \<Rightarrow> select_clause \<Rightarrow> py_error + row list" where
  "run_select env st sel = read_ndjson env sel (files_in st (sel_dir sel))"

definition create_as ::
  "env \<Rightarrow> table_kind \<Rightarrow> string \<Rightarrow> select_clause \<Rightarrow> state \<Rightarrow> (py_error + row list) \<times> state" where
  "create_as env kind name sel st =
     (case tables st name of
        Some _ \<Rightarrow> (Inl (EngineError (''Table with name '' @ name @ '' already exists'')), st)
      | None \<Rightarrow>
          (case run_select env st sel of
             Inl e \<Rightarrow> (Inl e, st)
           | Inr rows \<Rightarrow> (Inr rows, st\<lparr>tables := (tables st)(name \<mapsto> (kind, rows))\<rparr>)))"

fun run_sql :: "env \<Rightarrow> sql \<Rightarrow> state \<Rightarrow> (py_error + row list) \<times> state" where
  "run_sql env (InsertInto name sel) st =
     (case tables st name of
        None \<Rightarrow> (Inl (EngineError (''Table with name '' @ name @ '' does not exist'')), st)
      | Some (kind, old) \<Rightarrow>
          (case run_select env st sel of
             Inl e \<Rightarrow> (Inl e, st)
           | Inr rows \<Rightarrow>
               (Inr rows, st\<lparr>tables := (tables st)(name \<mapsto> (kind, old @ rows))\<rparr>)))"
| "run_sql env (CreateTemporaryTable name sel) st = create_as env Temporary name sel st"
| "run_sql env (CreateTable name sel) st = create_as env Durable name sel st"

text \<open>\<open>self.__conn.execute(sql_query)\<close>: the statement is run and logged with its
  outcome; an error is raised to the caller.\<close>

definition execute :: "env \<Rightarrow> sql \<Rightarrow> state \<Rightarrow> (py_error + unit) \<times> state" where
  "execute env q st =
     (case run_sql env q st of
        (Inl e, st') \<Rightarrow> (Inl e, log_event (Execute q (Inl e)) st')
      | (Inr rows, st') \<Rightarrow> (Inr (), log_event (Execute q (Inr rows)) st'))"

text \<open>
  The end of \<open>load_table\<close>, from \<open>select_clause\<close> on: the \<open>SELECT\<close> over the
  staging directory, the catalog query for a table named \<open>obj_type\<close>, the statement
  chosen by its answer and by the persistence path, its execution, and the removal of the
  staging directory, which is reached only when \<open>execute\<close> has returned. \<open>cols\<close> is
  the value after its default; \<open>limit\<close> is the argument, \<open>None\<close> formatting to the
  empty suffix.
\<close>

definition create_or_insert ::
  "parser \<Rightarrow> env \<Rightarrow> string \<Rightarrow> pyval \<Rightarrow> pyval \<Rightarrow> string \<Rightarrow> state
     \<Rightarrow> (py_error + unit) \<times> state" where
  "create_or_insert self env obj_type cols limit download_dir st =
     (let select_clause =
            \<lparr>sel_cols = cols, sel_dir = download_dir,
             sel_schema = get_schema env obj_type, sel_limit = limit\<rparr>;
          table_exists = (count_tables st obj_type > 0);
          st1 = log_event (QueryTables obj_type) st;
          sql_query =
            (if table_exists then InsertInto obj_type select_clause
             else if persist_path self = None
                  then CreateTemporaryTable obj_type select_clause
                  else CreateTable obj_type select_clause)
      in case execute env sql_query st1 of
           (Inl e, st2) \<Rightarrow> (Inl e, st2)
         | (Inr u, st2) \<Rightarrow> (Inr (), rmtree download_dir st2))"

text \<open>
  \<open>load_table\<close> after its checks, for the checked type \<open>obj_type\<close>: the staging
  directory, the defaults, the download, then the statement. The console output and the
  timer are left out.
\<close>

definition load_body ::
  "parser \<Rightarrow> env \<Rightarrow> string \<Rightarrow> pyval \<Rightarrow> pyval \<Rightarrow> pyval \<Rightarrow> pyval \<Rightarrow> pyval \<Rightarrow> string
     \<Rightarrow> state \<Rightarrow> (py_error + unit) \<times> state" where
  "load_body self env obj_type cols limit start_date end_date parts download_dir st =
     (let st1 = makedirs download_dir st;
          parts' = (if parts = PNone then PStr ''*'' else parts)
      in case (if start_date = PNone then get_start_date self env st1
               else (Inr start_date, st1)) of
           (Inl e, st2) \<Rightarrow> (Inl e, st2)
         | (Inr start_date', st2) \<Rightarrow>
             (let end_date' = (if end_date = PNone then PDate (today env) else end_date);
                  cols' = (if cols = PNone then PStr ''*'' else cols)
              in case download_files env obj_type start_date' end_date' parts' download_dir st2 of
                   (Inl e, st3) \<Rightarrow> (Inl e, st3)
                 | (Inr u, st3) \<Rightarrow>
                     create_or_insert self env obj_type cols' limit download_dir st3))"

definition load_table ::
  "parser \<Rightarrow> env \<Rightarrow> pyval \<Rightarrow> pyval \<Rightarrow> pyval \<Rightarrow> pyval \<Rightarrow> pyval \<Rightarrow> pyval \<Rightarrow> string
     \<Rightarrow> state \<Rightarrow> (py_error + unit) \<times> state" where
  "load_table self env obj_type cols limit start_date end_date parts download_dir st =
     (case validate env obj_type cols limit start_date end_date parts of
        Some e \<Rightarrow> (Inl e, st)
      | None \<Rightarrow>
          load_body self env (str_text obj_type) cols limit start_date end_date parts
            download_dir st)"


section \<open>Vocabulary of the properties\<close>

text \<open>The message of the \<open>ValueError\<close> that \<open>fromisoformat\<close> raises on a string
  that is no date.\<close>

definition iso_message :: "bool \<Rightarrow> string \<Rightarrow> string" where
  "iso_message extended s =
     (case fromisoformat_str extended s of Inl msg \<Rightarrow> msg | Inr d \<Rightarrow> [])"

text \<open>The date a key carries, if its extracted text is one, and the test of the range
  with both bounds included.\<close>

definition key_date :: "bool \<Rightarrow> string \<Rightarrow> date option" where
  "key_date extended key = fromisoformat extended (extract_date key)"

definition in_range :: "bool \<Rightarrow> date \<Rightarrow> date \<Rightarrow> string \<Rightarrow> bool" where
  "in_range extended sd ed key =
     (case key_date extended key of
        None \<Rightarrow> False
      | Some d \<Rightarrow> date_le sd d \<and> date_le d ed)"

text \<open>The invariant of the data model on a listed key: a manifest marker, or a key that
  carries a valid date.\<close>

definition dated :: "bool \<Rightarrow> string \<Rightarrow> bool" where
  "dated extended key = (is_manifest key \<or> key_date extended key \<noteq> None)"

text \<open>
  The pattern as the expression writes it: \<open>updated_date=\<close>, then three non-empty runs
  of digits with a hyphen between them. \<open>occurs_at s i d\<close>: the pattern stands at
  position \<open>i\<close> of \<open>s\<close> with the date text \<open>d\<close>, the last run taken to its end.
\<close>

definition digits :: "string \<Rightarrow> bool" where
  "digits s = (s \<noteq> [] \<and> list_all is_digit s)"

definition starts_with_digit :: "string \<Rightarrow> bool" where
  "starts_with_digit s = (case s of [] \<Rightarrow> False | c # _ \<Rightarrow> is_digit c)"

definition date_text :: "string \<Rightarrow> bool" where
  "date_text d =
     (case split_on (CHR ''-'') d of
        [a, b, c] \<Rightarrow> digits a \<and> digits b \<and> digits c
      | _ \<Rightarrow> False)"

definition occurs_at :: "string \<Rightarrow> nat \<Rightarrow> string \<Rightarrow> bool" where
  "occurs_at s i d =
     (date_text d
      \<and> take (13 + length d) (drop i s) = ''updated_date='' @ d
      \<and> \<not> starts_with_digit (drop (13 + length d) (drop i s)))"

text \<open>The pattern read as \<open>updated_date=YYYY-MM-DD\<close>: four, two and two digits.\<close>

definition iso_shape :: "string \<Rightarrow> bool" where
  "iso_shape d =
     (length d = 10 \<and> d ! 4 = CHR ''-'' \<and> d ! 7 = CHR ''-''
      \<and> list_all is_digit (take 4 d)
      \<and> list_all is_digit (take 2 (drop 5 d))
      \<and> list_all is_digit (drop 8 d))"

definition iso_at :: "string \<Rightarrow> nat \<Rightarrow> bool" where
  "iso_at s i =
     (take 13 (drop i s) = ''updated_date='' \<and> iso_shape (take 10 (drop (i + 13) s)))"

definition contains_iso :: "string \<Rightarrow> bool" where
  "contains_iso s = list_ex (iso_at s) [0..<Suc (length s)]"

text \<open>Whether a message holds a word.\<close>

definition mentions :: "string \<Rightarrow> string \<Rightarrow> bool" where
  "mentions msg w = list_ex (\<lambda>i. take (length w) (drop i msg) = w) [0..<Suc (length msg)]"

text \<open>The events a call has added to the log, and what they say: the keys submitted to
  the pool, the keys logged as failed, the statements run and their outcomes, the rows
  ingested.\<close>

definition new_events :: "state \<Rightarrow> state \<Rightarrow> event list" where
  "new_events st st' = drop (length (trace st)) (trace st')"

definition submitted :: "event list \<Rightarrow> string list" where
  "submitted evs = concat (map (\<lambda>ev. case ev of Submit f \<Rightarrow> [f] | _ \<Rightarrow> []) evs)"

definition logged :: "event list \<Rightarrow> string list" where
  "logged evs = concat (map (\<lambda>ev. case ev of LogError f e \<Rightarrow> [f] | _ \<Rightarrow> []) evs)"

definition statements :: "event list \<Rightarrow> sql list" where
  "statements evs = concat (map (\<lambda>ev. case ev of Execute q x \<Rightarrow> [q] | _ \<Rightarrow> []) evs)"

definition outcomes :: "event list \<Rightarrow> (py_error + row list) list" where
  "outcomes evs = concat (map (\<lambda>ev. case ev of Execute q x \<Rightarrow> [x] | _ \<Rightarrow> []) evs)"

definition ingested :: "event list \<Rightarrow> row list" where
  "ingested evs =
     concat (map (\<lambda>x. case x of Inl e \<Rightarrow> [] | Inr rows \<Rightarrow> rows) (outcomes evs))"

text \<open>A step that runs no statement: it leaves the tables alone and adds no
  \<open>Execute\<close> event to the log.\<close>

definition quiet :: "state \<Rightarrow> state \<Rightarrow> bool" where
  "quiet st st' =
     (tables st' = tables st
      \<and> (\<exists>evs. trace st' = trace st @ evs \<and> statements evs = [] \<and> outcomes evs = []))"

text \<open>The log of the download loop over a list of files.\<close>

fun fetch_events :: "env \<Rightarrow> string list \<Rightarrow> event list" where
  "fetch_events env [] = []"
| "fetch_events env (f # fs) =
     HeadObject f
     # (case head_object env f of Inl e \<Rightarrow> LogError f e | Inr file_sz \<Rightarrow> Submit f)
     # fetch_events env fs"

text \<open>The \<open>SELECT\<close> and the statement that \<open>load_table\<close> builds for its arguments,
  given whether the table was found.\<close>

definition select_of :: "env \<Rightarrow> string \<Rightarrow> pyval \<Rightarrow> pyval \<Rightarrow> string \<Rightarrow> select_clause" where
  "select_of env obj_type cols limit download_dir =
     \<lparr>sel_cols = (if cols = PNone then PStr ''*'' else cols), sel_dir = download_dir,
      sel_schema = get_schema env obj_type, sel_limit = limit\<rparr>"

definition kind_of :: "parser \<Rightarrow> table_kind" where
  "kind_of self = (if persist_path self = None then Temporary else Durable)"

text \<open>The statement for a table that was or was not found, and the table that a
  successful statement leaves: the rows appended to an existing table, or a new table of
  the kind the persistence path decides.\<close>

definition statement_of :: "parser \<Rightarrow> bool \<Rightarrow> string \<Rightarrow> select_clause \<Rightarrow> sql" where
  "statement_of self found obj_type sel =
     (if found then InsertInto obj_type sel
      else if persist_path self = None then CreateTemporaryTable obj_type sel
      else CreateTable obj_type sel)"

definition table_after :: "parser \<Rightarrow> state \<Rightarrow> string \<Rightarrow> row list \<Rightarrow> table_kind \<times> row list" where
  "table_after self st obj_type rows =
     (case tables st obj_type of
        None \<Rightarrow> (kind_of self, rows)
      | Some (kind, old) \<Rightarrow> (kind, old @ rows))"

text \<open>
  A sequence of \<open>load_table\<close> calls on one parser for one entity type, each with its own
  remote world and arguments; the sequence stops at the first call that raises.
\<close>

record call =
  c_env :: env
  c_cols :: pyval
  c_limit :: pyval
  c_start_date :: pyval
  c_end_date :: pyval
  c_parts :: pyval
  c_download_dir :: string

fun run_loads :: "parser \<Rightarrow> pyval \<Rightarrow> call list \<Rightarrow> state \<Rightarrow> (py_error + unit) \<times> state" where
  "run_loads self obj_type [] st = (Inr (), st)"
| "run_loads self obj_type (c # cs) st =
     (case load_table self (c_env c) obj_type (c_cols c) (c_limit c) (c_start_date c)
             (c_end_date c) (c_parts c) (c_download_dir c) st of
        (Inl e, st') \<Rightarrow> (Inl e, st')
      | (Inr u, st') \<Rightarrow> run_loads self obj_type cs st')"

text \<open>The statements of a log that create a table, and those that insert.\<close>

fun is_create :: "sql \<Rightarrow> bool" where
  "is_create (InsertInto name sel) = False"
| "is_create (CreateTemporaryTable name sel) = True"
| "is_create (CreateTable name sel) = True"

fun sql_table :: "sql \<Rightarrow> string" where
  "sql_table (InsertInto name sel) = name"
| "sql_table (CreateTemporaryTable name sel) = name"
| "sql_table (CreateTable name sel) = name"

section \<open>A sample bucket\<close>

definition key_0803 :: string where
  "key_0803 = ''data/works/updated_date=2025-08-03/part_000.gz''"

definition key_0804 :: string where
  "key_0804 = ''data/works/updated_date=2025-08-04/part_000.gz''"

definition key_0805 :: string where
  "key_0805 = ''data/works/updated_date=2025-08-05/part_001.gz''"

definition key_manifest :: string where
  "key_manifest = ''data/works/manifest''"

text \<open>Two pages; the size lookup of the keys in \<open>no_head\<close> fails, every download
  succeeds, and the reader returns one row per file, or the error \<open>No files found\<close>
  when \<open>strict\<close> is set and the directory is empty. The interpreter is Python 3.11.\<close>

definition sample_env :: "string list \<Rightarrow> bool \<Rightarrow> env" where
  "sample_env no_head strict =
     \<lparr>iso_extended = True,
      today = Date 2025 9 1,
      works_schema = [(''id'', ''VARCHAR'')],
      list_objects =
        (\<lambda>prefix. if prefix = ''data/works/''
                   then [Inr [key_0803, key_0804], Inr [key_manifest, key_0805]] else []),
      head_object =
        (\<lambda>key. if key \<in> set no_head then Inl (ClientError ''404'') else Inr 100),
      copy_ok = (\<lambda>key. True),
      read_ndjson =
        (\<lambda>sel files. if strict \<and> files = [] then Inl (EngineError ''No files found'')
                      else Inr files)\<rparr>"

definition empty_state :: state where
  "empty_state = \<lparr>tables = Map.empty, dirs = Map.empty, trace = []\<rparr>"

text \<open>Two loads of \<open>works\<close> on the sample bucket, for the third of August and for
  the fourth and fifth, into the default staging directory.\<close>

definition call_0803 :: call where
  "call_0803 =
     \<lparr>c_env = sample_env [] False, c_cols = PNone, c_limit = PNone,
      c_start_date = PStr ''2025-08-03'', c_end_date = PStr ''2025-08-03'',
      c_parts = PNone, c_download_dir = ''./.cache/oa''\<rparr>"

definition call_0804 :: call where
  "call_0804 =
     \<lparr>c_env = sample_env [] False, c_cols = PNone, c_limit = PNone,
      c_start_date = PStr ''2025-08-04'', c_end_date = PStr ''2025-08-05'',
      c_parts = PNone, c_download_dir = ''./.cache/oa''\<rparr>"

text \<open>The staging directory as a load whose statement failed leaves it: it still holds
  the file staged for the key of the fifth of August.\<close>

definition leftover_state :: state where
  "leftover_state =
     \<lparr>tables = Map.empty,
      dirs = [''./.cache/oa'' \<mapsto> [staged_name key_0805]],
      trace = []\<rparr>"

section \<open>Properties of the date pattern\<close>

lemma hyphen_no_digit: "\<not> is_digit (CHR ''-'')"
  by (simp add: is_digit_def)

lemma split_on_nonempty: "split_on sep s \<noteq> []"
  by (induction s) (auto split: list.splits)

lemma split_on_absent: "sep \<notin> set a \<Longrightarrow> split_on sep a = [a]"
  by (induction a) auto

lemma split_on_append:
  "sep \<notin> set a \<Longrightarrow> split_on sep (a @ sep # r) = a # split_on sep r"
  by (induction a) auto

lemma digits_no_hyphen: "list_all is_digit a \<Longrightarrow> CHR ''-'' \<notin> set a"
  using hyphen_no_digit by (auto simp: list_all_iff)

lemma date_text_intro:
  "digits a \<Longrightarrow> digits b \<Longrightarrow> digits c \<Longrightarrow> date_text (a @ ''-'' @ b @ ''-'' @ c)"
  by (simp add: date_text_def digits_def split_on_append split_on_absent digits_no_hyphen)

lemma split_on_join:
  "split_on sep s = w # ws \<Longrightarrow> ws \<noteq> [] \<Longrightarrow> \<exists>r. s = w @ sep # r \<and> split_on sep r = ws"
proof (induction s arbitrary: w ws)
  case Nil
  then show ?case by simp
next
  case (Cons x s)
  show ?case
  proof (cases "x = sep")
    case True
    with Cons.prems show ?thesis by auto
  next
    case False
    with Cons.prems obtain w' where w': "split_on sep s = w' # ws" "w = x # w'"
      by (auto split: list.splits)
    from Cons.IH[OF w'(1) Cons.prems(2)] w'(2) show ?thesis by auto
  qed
qed

lemma split_on_single: "split_on sep s = [w] \<Longrightarrow> s = w"
proof (induction s arbitrary: w)
  case Nil
  then show ?case by simp
next
  case (Cons x s)
  then show ?case by (auto split: if_splits list.splits simp: split_on_nonempty)
qed

lemma date_text_elim:
  assumes "date_text d"
  obtains a b c where "d = a @ ''-'' @ b @ ''-'' @ c" "digits a" "digits b" "digits c"
proof -
  from assms obtain a b c where s: "split_on (CHR ''-'') d = [a, b, c]"
    and dg: "digits a" "digits b" "digits c"
    by (auto simp: date_text_def split: list.splits)
  from split_on_join[OF s] obtain r where r: "d = a @ CHR ''-'' # r" "split_on (CHR ''-'') r = [b, c]"
    by auto
  from split_on_join[OF r(2)] obtain r' where r': "r = b @ CHR ''-'' # r'" "split_on (CHR ''-'') r' = [c]"
    by auto
  from split_on_single[OF r'(2)] r r' have "d = a @ ''-'' @ b @ ''-'' @ c" by simp
  with dg that show ?thesis by blast
qed

lemma digit_run:
  "list_all is_digit a \<Longrightarrow> \<not> starts_with_digit r \<Longrightarrow>
   takeWhile is_digit (a @ r) = a \<and> dropWhile is_digit (a @ r) = r"
  by (induction a) (auto simp: starts_with_digit_def split: list.splits)

lemma after_run: "\<not> starts_with_digit (dropWhile is_digit xs)"
  by (induction xs) (auto simp: starts_with_digit_def)

lemma not_starts_hyphen: "\<not> starts_with_digit (CHR ''-'' # r)"
  by (simp add: starts_with_digit_def hyphen_no_digit)

lemma match_here_complete:
  assumes "digits a" "digits b" "digits c" "\<not> starts_with_digit rest"
  shows "match_here (''updated_date='' @ a @ ''-'' @ b @ ''-'' @ c @ rest)
           = Some (a @ ''-'' @ b @ ''-'' @ c)"
proof -
  have a: "takeWhile is_digit (a @ CHR ''-'' # b @ CHR ''-'' # c @ rest) = a"
          "dropWhile is_digit (a @ CHR ''-'' # b @ CHR ''-'' # c @ rest) = CHR ''-'' # b @ CHR ''-'' # c @ rest"
    using digit_run[OF _ not_starts_hyphen, of a] assms(1) by (simp_all add: digits_def)
  have b: "takeWhile is_digit (b @ CHR ''-'' # c @ rest) = b"
          "dropWhile is_digit (b @ CHR ''-'' # c @ rest) = CHR ''-'' # c @ rest"
    using digit_run[OF _ not_starts_hyphen, of b] assms(2) by (simp_all add: digits_def)
  have c: "takeWhile is_digit (c @ rest) = c"
    using digit_run[OF _ assms(4), of c] assms(3) by (simp add: digits_def)
  show ?thesis
    using assms(1-3) by (simp add: match_here_def a b c digits_def)
qed

lemma match_here_sound:
  assumes "match_here s = Some d"
  shows "\<exists>a b c rest. s = ''updated_date='' @ a @ ''-'' @ b @ ''-'' @ c @ rest
           \<and> d = a @ ''-'' @ b @ ''-'' @ c
           \<and> digits a \<and> digits b \<and> digits c \<and> \<not> starts_with_digit rest"
proof -
  define r1 where "r1 = drop 13 s"
  define d1 where "d1 = takeWhile is_digit r1"
  define r2 where "r2 = dropWhile is_digit r1"
  define r3 where "r3 = drop 1 r2"
  define d2 where "d2 = takeWhile is_digit r3"
  define r4 where "r4 = dropWhile is_digit r3"
  define r5 where "r5 = drop 1 r4"
  define d3 where "d3 = takeWhile is_digit r5"
  define r6 where "r6 = dropWhile is_digit r5"
  from assms have p: "take 13 s = ''updated_date=''"
    by (auto simp: match_here_def split: if_splits)
  from assms p have c1: "d1 \<noteq> []" "take 1 r2 = ''-''"
    by (auto simp: match_here_def Let_def r1_def d1_def r2_def split: if_splits)
  from assms p c1 have c2: "d2 \<noteq> []" "take 1 r4 = ''-''"
    by (auto simp: match_here_def Let_def r1_def d1_def r2_def r3_def d2_def r4_def split: if_splits)
  from assms p c1 c2 have c3: "d3 \<noteq> []" "d = d1 @ ''-'' @ d2 @ ''-'' @ d3"
    by (auto simp: match_here_def Let_def r1_def d1_def r2_def r3_def d2_def r4_def r5_def d3_def
             split: if_splits)
  have s1: "s = ''updated_date='' @ r1"
    using p append_take_drop_id[of 13 s] by (simp add: r1_def)
  have s2: "r1 = d1 @ r2" by (simp add: d1_def r2_def)
  have s3: "r2 = ''-'' @ r3"
    using c1(2) append_take_drop_id[of 1 r2] by (simp add: r3_def)
  have s4: "r3 = d2 @ r4" by (simp add: d2_def r4_def)
  have s5: "r4 = ''-'' @ r5"
    using c2(2) append_take_drop_id[of 1 r4] by (simp add: r5_def)
  have s6: "r5 = d3 @ r6" by (simp add: d3_def r6_def)
  have n: "\<not> starts_with_digit r6"
    by (simp add: r6_def after_run)
  have dg: "list_all is_digit d1" "list_all is_digit d2" "list_all is_digit d3"
    by (auto simp: d1_def d2_def d3_def list_all_iff dest: set_takeWhileD)
  have "s = ''updated_date='' @ d1 @ ''-'' @ d2 @ ''-'' @ d3 @ r6"
    using s1 s2 s3 s4 s5 s6 by simp
  with c1 c2 c3 dg n show ?thesis
    unfolding digits_def by blast
qed

lemma take_drop_literal:
  "length p = n \<Longrightarrow>
   take (n + length d) (p @ d @ rest) = p @ d \<and> drop (n + length d) (p @ d @ rest) = rest"
  by simp

lemma occurs_at_head: "occurs_at s 0 d \<longleftrightarrow> match_here s = Some d"
proof
  assume o: "occurs_at s 0 d"
  then obtain a b c where d: "d = a @ ''-'' @ b @ ''-'' @ c" "digits a" "digits b" "digits c"
    by (auto simp: occurs_at_def elim: date_text_elim)
  define rest where "rest = drop (13 + length d) s"
  from o have t: "take (13 + length d) s = ''updated_date='' @ d"
    and n: "\<not> starts_with_digit rest"
    by (simp_all add: occurs_at_def rest_def)
  have "s = take (13 + length d) s @ rest"
    by (simp add: rest_def)
  with t have "s = ''updated_date='' @ a @ ''-'' @ b @ ''-'' @ c @ rest"
    by (simp add: d)
  with match_here_complete[OF d(2-4) n] show "match_here s = Some d"
    by (simp add: d)
next
  assume "match_here s = Some d"
  from match_here_sound[OF this] obtain a b c rest where
    s: "s = ''updated_date='' @ a @ ''-'' @ b @ ''-'' @ c @ rest"
    and d: "d = a @ ''-'' @ b @ ''-'' @ c"
    and dg: "digits a" "digits b" "digits c" and n: "\<not> starts_with_digit rest"
    by blast
  have "date_text d"
    unfolding d by (rule date_text_intro[OF dg])
  moreover have "take (13 + length d) s = ''updated_date='' @ d
      \<and> drop (13 + length d) s = rest"
    using take_drop_literal[of "''updated_date=''" 13 d rest] by (simp add: s d)
  ultimately show "occurs_at s 0 d"
    using n by (simp add: occurs_at_def)
qed

lemma occurs_at_Nil: "\<not> occurs_at [] i d"
  by (simp add: occurs_at_def)

lemma occurs_at_Suc: "occurs_at (c # cs) (Suc i) d = occurs_at cs i d"
  by (simp add: occurs_at_def)

lemma search_none: "(\<forall>i d. \<not> occurs_at s i d) \<Longrightarrow> search s = None"
proof (induction s)
  case Nil
  then show ?case
    using occurs_at_head[of Nil] by (cases "match_here Nil") auto
next
  case (Cons c cs)
  from Cons.prems have "\<forall>i d. \<not> occurs_at cs i d"
    using occurs_at_Suc by blast
  then have "search cs = None" by (rule Cons.IH)
  moreover from Cons.prems have "match_here (c # cs) = None"
    using occurs_at_head[of "c # cs"] by (cases "match_here (c # cs)") auto
  ultimately show ?case by simp
qed

lemma search_leftmost:
  "occurs_at s i d \<Longrightarrow> (\<forall>j<i. \<forall>e. \<not> occurs_at s j e) \<Longrightarrow> search s = Some d"
proof (induction s arbitrary: i)
  case Nil
  then show ?case by (simp add: occurs_at_Nil)
next
  case (Cons c cs)
  show ?case
  proof (cases i)
    case 0
    with Cons.prems(1) have "match_here (c # cs) = Some d"
      by (simp add: occurs_at_head)
    then show ?thesis by simp
  next
    case (Suc k)
    with Cons.prems(2) have "\<forall>e. \<not> occurs_at (c # cs) 0 e" by simp
    then have m: "match_here (c # cs) = None"
      using occurs_at_head[of "c # cs"] by (cases "match_here (c # cs)") auto
    from Cons.prems(1) Suc have o: "occurs_at cs k d"
      by (simp add: occurs_at_Suc)
    have "\<forall>j<k. \<forall>e. \<not> occurs_at cs j e"
    proof (intro allI impI)
      fix j e assume "j < k"
      then have "Suc j < i" using Suc by simp
      with Cons.prems(2) have "\<not> occurs_at (c # cs) (Suc j) e" by blast
      then show "\<not> occurs_at cs j e" by (simp add: occurs_at_Suc)
    qed
    from Cons.IH[OF o this] m show ?thesis by simp
  qed
qed

lemma occurs_at_literal: "occurs_at s j e \<Longrightarrow> take 13 (drop j s) = ''updated_date=''"
proof -
  assume "occurs_at s j e"
  then have "take (13 + length e) (drop j s) = ''updated_date='' @ e"
    by (simp add: occurs_at_def)
  then have "take 13 (take (13 + length e) (drop j s)) = take 13 (''updated_date='' @ e)"
    by simp
  then show ?thesis by (simp add: min_def)
qed

text \<open>
  Claim C8, as the code has it. The pattern is \<open>updated_date=\<close> followed by three
  non-empty runs of digits separated by hyphens, of any lengths. When the pattern stands
  at position \<open>i\<close> of the text with date text \<open>d\<close> and at no earlier position,
  \<open>extract_date\<close> returns exactly \<open>d\<close>; when it stands nowhere, \<open>extract_date\<close>
  returns the empty string. The function is total: it has no other outcome.
\<close>

theorem extract_date_leftmost_match:
  "(occurs_at s i d \<and> (\<forall>j<i. \<forall>e. \<not> occurs_at s j e) \<longrightarrow> extract_date s = d)
   \<and> ((\<forall>i d. \<not> occurs_at s i d) \<longrightarrow> extract_date s = [])"
proof (intro conjI impI)
  assume "occurs_at s i d \<and> (\<forall>j<i. \<forall>e. \<not> occurs_at s j e)"
  then have "search s = Some d" using search_leftmost[of s i d] by blast
  then show "extract_date s = d" by (simp add: extract_date_def)
next
  assume "\<forall>i d. \<not> occurs_at s i d"
  then have "search s = None" by (rule search_none)
  then show "extract_date s = []" by (simp add: extract_date_def)
qed

theorem extract_date_leftmost_match_witness:
  "extract_date ''data/works/updated_date=2025-08-04/part_000.gz'' = ''2025-08-04''
   \<and> extract_date ''data/works/manifest'' = []"
proof -
  let ?k = "''data/works/updated_date=2025-08-04/part_000.gz''"
  let ?m = "''data/works/manifest''"
  have o: "occurs_at ?k 11 ''2025-08-04''" by code_simp
  have "\<forall>j \<in> set [0..<11]. take 13 (drop j ?k) \<noteq> ''updated_date=''" by code_simp
  then have l: "\<forall>j<11. \<forall>e. \<not> occurs_at ?k j e"
    using occurs_at_literal by fastforce
  have "\<forall>j \<in> set [0..<20]. take 13 (drop j ?m) \<noteq> ''updated_date=''" by code_simp
  moreover have "\<And>j. 20 \<le> j \<Longrightarrow> take 13 (drop j ?m) \<noteq> ''updated_date=''" by simp
  ultimately have n: "\<forall>i d. \<not> occurs_at ?m i d"
    using occurs_at_literal by (metis atLeastLessThan_iff not_le set_upt zero_le)
  from extract_date_leftmost_match[of ?k 11 "''2025-08-04''"] o l
       extract_date_leftmost_match[of ?m] n
  show ?thesis by blast
qed

text \<open>
  The claim with the pattern read as \<open>updated_date=YYYY-MM-DD\<close> fails both ways: a key
  that holds \<open>updated_date=2025-08-04\<close> followed by another digit yields the longer
  text \<open>2025-08-045\<close>, and a key that holds no such pattern, \<open>updated_date=1-2-3\<close>,
  does not yield the empty string.
\<close>

theorem extract_date_iso_counterexample:
  "iso_at ''data/works/updated_date=2025-08-045/part_000.gz'' 11
   \<and> extract_date ''data/works/updated_date=2025-08-045/part_000.gz'' = ''2025-08-045''
   \<and> \<not> contains_iso ''data/works/updated_date=1-2-3/part_000.gz''
   \<and> extract_date ''data/works/updated_date=1-2-3/part_000.gz'' = ''1-2-3''"
  by code_simp

section \<open>Parsing dates\<close>

declare fromisoformat_val.simps(1) [simp del]

lemma fromisoformat_val_str [simp]:
  "fromisoformat_val extended (PStr s) =
     (case fromisoformat extended s of
        None \<Rightarrow> Inl (ValueError (iso_message extended s))
      | Some d \<Rightarrow> Inr d)"
  by (simp add: fromisoformat_val.simps(1) fromisoformat_def iso_message_def split: sum.splits)

lemma iso_message_empty: "iso_message extended [] = ''Invalid isoformat string: '' @ py_repr []"
  by (simp add: iso_message_def fromisoformat_str_def iso_fields_def iso_fields_310_def
        iso_fields_311_def byte_len_def)

lemma august_dates:
  "fromisoformat extended ''2025-08-03'' = Some (Date 2025 8 3)"
  "fromisoformat extended ''2025-08-04'' = Some (Date 2025 8 4)"
  "fromisoformat extended ''2025-08-05'' = Some (Date 2025 8 5)"
  "fromisoformat extended ''2025-08-06'' = Some (Date 2025 8 6)"
proof -
  have t: "fromisoformat True ''2025-08-03'' = Some (Date 2025 8 3)"
    "fromisoformat True ''2025-08-04'' = Some (Date 2025 8 4)"
    "fromisoformat True ''2025-08-05'' = Some (Date 2025 8 5)"
    "fromisoformat True ''2025-08-06'' = Some (Date 2025 8 6)"
    by code_simp+
  have f: "fromisoformat False ''2025-08-03'' = Some (Date 2025 8 3)"
    "fromisoformat False ''2025-08-04'' = Some (Date 2025 8 4)"
    "fromisoformat False ''2025-08-05'' = Some (Date 2025 8 5)"
    "fromisoformat False ''2025-08-06'' = Some (Date 2025 8 6)"
    by code_simp+
  show "fromisoformat extended ''2025-08-03'' = Some (Date 2025 8 3)"
    "fromisoformat extended ''2025-08-04'' = Some (Date 2025 8 4)"
    "fromisoformat extended ''2025-08-05'' = Some (Date 2025 8 5)"
    "fromisoformat extended ''2025-08-06'' = Some (Date 2025 8 6)"
    using t f by (cases extended; simp)+
qed

lemma day_first_is_no_date: "\<not> check_date_fmt extended ''08-04-2025''"
proof -
  have "\<not> check_date_fmt True ''08-04-2025''" "\<not> check_date_fmt False ''08-04-2025''"
    by code_simp+
  then show ?thesis by (cases extended) simp_all
qed

section \<open>RemoteCatalog: the files of a date range\<close>

lemma get_files_page_filter:
  "list_all (dated extended) keys \<Longrightarrow>
   get_files_page extended sd ed keys acc =
     Inr (acc @ filter (\<lambda>key. \<not> is_manifest key \<and> in_range extended sd ed key) keys)"
proof (induction keys arbitrary: acc)
  case Nil
  then show ?case by simp
next
  case (Cons key keys)
  then show ?case
    by (cases "fromisoformat extended (extract_date key)")
       (auto simp: dated_def key_date_def in_range_def)
qed

lemma get_files_pages_filter:
  "list_all (dated extended) (concat pages) \<Longrightarrow>
   get_files_pages extended sd ed (map Inr pages) acc =
     Inr (acc @ filter (\<lambda>key. \<not> is_manifest key \<and> in_range extended sd ed key)
                 (concat pages))"
proof (induction pages arbitrary: acc)
  case Nil
  then show ?case by simp
next
  case (Cons keys pages)
  then show ?case by (simp add: get_files_page_filter)
qed

text \<open>
  On a listing whose pages all arrive and whose keys keep the invariant of the data model
  (each is a manifest marker or carries a valid date), and for bounds that parse to the
  dates \<open>sd\<close> and \<open>ed\<close>, \<open>__get_files\<close> returns exactly the listed keys that are no
  manifest and whose date \<open>d\<close> has \<open>sd \<le> d \<le> ed\<close>, both bounds included, in listing
  order.
\<close>

lemma get_files_on_dated_listing:
  assumes "fromisoformat (iso_extended env) start_date = Some sd"
    and "fromisoformat (iso_extended env) end_date = Some ed"
    and "list_objects env (prefix_of obj_type) = map Inr pages"
    and "list_all (dated (iso_extended env)) (concat pages)"
  shows "fst (get_files env obj_type (PStr start_date) (PStr end_date) st) =
           Inr (filter (\<lambda>key. \<not> is_manifest key \<and> in_range (iso_extended env) sd ed key)
                  (concat pages))"
  using assms by (simp add: get_files_def get_files_pages_filter)

lemma get_files_on_sample_listing:
  "fst (get_files (sample_env [] False) ''works'' (PStr ''2025-08-04'') (PStr ''2025-08-05'')
          empty_state) = Inr [key_0804, key_0805]"
proof -
  let ?pages = "[[key_0803, key_0804], [key_manifest, key_0805]]"
  have x: "iso_extended (sample_env [] False) = True" by (simp add: sample_env_def)
  have h3: "list_objects (sample_env [] False) (prefix_of ''works'') = map Inr ?pages"
    by (simp add: sample_env_def prefix_of_def)
  have h4: "list_all (dated True) (concat ?pages)" by code_simp
  have "filter (\<lambda>key. \<not> is_manifest key \<and> in_range True (Date 2025 8 4) (Date 2025 8 5) key)
          (concat ?pages) = [key_0804, key_0805]"
    by code_simp
  with get_files_on_dated_listing[OF august_dates(2) august_dates(3) h3, of empty_state] h4 x
  show ?thesis by simp
qed

text \<open>
  Claim C1, at a listing of two pages whose second page holds a key that is no manifest
  and carries no date. The claim gives the subset of the keys dated in the range, here the
  key of the fourth of August alone; the call raises \<open>ValueError\<close> and returns no list.
  This is the unguarded parse of claim C2.
\<close>

theorem get_files_raises_instead_of_subset:
  "fst (get_files
          (env\<lparr>list_objects :=
                 \<lambda>prefix. [Inr [''data/works/updated_date=2025-08-04/part_000.gz''],
                            Inr [''data/works/LICENSE.txt'']]\<rparr>)
          ''works'' (PStr ''2025-08-04'') (PStr ''2025-08-05'') st)
     = Inl (ValueError (''Invalid isoformat string: '' @ py_repr []))
   \<and> filter (\<lambda>key. \<not> is_manifest key
                  \<and> in_range (iso_extended env) (Date 2025 8 4) (Date 2025 8 5) key)
        [''data/works/updated_date=2025-08-04/part_000.gz'', ''data/works/LICENSE.txt'']
     = [''data/works/updated_date=2025-08-04/part_000.gz'']"
proof
  have e: "extract_date ''data/works/updated_date=2025-08-04/part_000.gz'' = ''2025-08-04''"
    "extract_date ''data/works/LICENSE.txt'' = []"
    "\<not> is_manifest ''data/works/updated_date=2025-08-04/part_000.gz''"
    "\<not> is_manifest ''data/works/LICENSE.txt''"
    by code_simp+
  have n: "fromisoformat (iso_extended env) [] = None"
    by (simp add: fromisoformat_def fromisoformat_str_def iso_fields_def iso_fields_310_def
          iso_fields_311_def byte_len_def)
  have d: "date_le (Date 2025 8 4) (Date 2025 8 4)" "date_le (Date 2025 8 4) (Date 2025 8 5)"
    by simp_all
  show "fst (get_files
          (env\<lparr>list_objects :=
                 \<lambda>prefix. [Inr [''data/works/updated_date=2025-08-04/part_000.gz''],
                            Inr [''data/works/LICENSE.txt'']]\<rparr>)
          ''works'' (PStr ''2025-08-04'') (PStr ''2025-08-05'') st)
     = Inl (ValueError (''Invalid isoformat string: '' @ py_repr []))"
    by (simp add: get_files_def august_dates e n d iso_message_empty)
  show "filter (\<lambda>key. \<not> is_manifest key
                  \<and> in_range (iso_extended env) (Date 2025 8 4) (Date 2025 8 5) key)
        [''data/works/updated_date=2025-08-04/part_000.gz'', ''data/works/LICENSE.txt'']
     = [''data/works/updated_date=2025-08-04/part_000.gz'']"
    by (simp add: in_range_def key_date_def august_dates e n d)
qed

text \<open>
  Claim C2, at a listing with a key that is no manifest and carries no date: the empty
  text goes to \<open>fromisoformat\<close> unguarded, and the call raises \<open>ValueError\<close> instead
  of leaving the key out. \<open>__get_start_date\<close> guards the same parse with
  \<open>dat != ""\<close>.
\<close>

theorem get_files_undated_key_raises:
  "fst (get_files
          (env\<lparr>list_objects :=
                 \<lambda>prefix. [Inr [''data/works/updated_date=2025-08-04/part_000.gz'',
                                 ''data/works/README.txt'']]\<rparr>)
          ''works'' (PStr ''2025-08-04'') (PStr ''2025-08-05'') st)
     = Inl (ValueError (''Invalid isoformat string: '' @ py_repr []))"
proof -
  have e: "extract_date ''data/works/updated_date=2025-08-04/part_000.gz'' = ''2025-08-04''"
    "extract_date ''data/works/README.txt'' = []"
    "\<not> is_manifest ''data/works/updated_date=2025-08-04/part_000.gz''"
    "\<not> is_manifest ''data/works/README.txt''"
    by code_simp+
  have n: "fromisoformat (iso_extended env) [] = None"
    by (simp add: fromisoformat_def fromisoformat_str_def iso_fields_def iso_fields_310_def
          iso_fields_311_def byte_len_def)
  have d: "date_le (Date 2025 8 4) (Date 2025 8 4)" "date_le (Date 2025 8 4) (Date 2025 8 5)"
    by simp_all
  show ?thesis
    by (simp add: get_files_def august_dates e n d iso_message_empty)
qed

section \<open>RemoteCatalog: the earliest date\<close>

text \<open>
  Claim C5, on the code. A parser as \<open>__init__\<close> leaves it has no attribute
  \<open>__obj_type\<close>, so \<open>__get_start_date\<close> raises \<open>AttributeError\<close> for every
  listing, before it requests one. And with the attribute supplied, the loop returns at the
  first dated key below today (here \<open>2025-08-05\<close>), not at the minimum
  (\<open>2025-08-04\<close>).
\<close>

theorem get_start_date_never_returns_minimum:
  "get_start_date (init n p) env st = (Inl no_obj_type, st)
   \<and> get_start_date_pages extended (Date 2025 9 1)
        [Inr [''data/works/manifest'',
              ''data/works/merged/updated_date=2025-08-05/part_000.gz'',
              ''data/works/updated_date=2025-08-04/part_000.gz'']]
       = Inr (PStr ''2025-08-05'')"
proof
  show "get_start_date (init n p) env st = (Inl no_obj_type, st)"
    by (simp add: get_start_date_def init_def)
  have e: "is_manifest ''data/works/manifest''"
    "\<not> is_manifest ''data/works/merged/updated_date=2025-08-05/part_000.gz''"
    "extract_date ''data/works/merged/updated_date=2025-08-05/part_000.gz'' = ''2025-08-05''"
    by code_simp+
  show "get_start_date_pages extended (Date 2025 9 1)
        [Inr [''data/works/manifest'',
              ''data/works/merged/updated_date=2025-08-05/part_000.gz'',
              ''data/works/updated_date=2025-08-04/part_000.gz'']]
       = Inr (PStr ''2025-08-05'')"
    by (simp add: e august_dates)
qed

section \<open>The checks and the defaults of \<open>load_table\<close>\<close>

lemma validate_fails_before_io:
  "validate env obj_type cols limit start_date end_date parts = Some e \<Longrightarrow>
   load_table self env obj_type cols limit start_date end_date parts download_dir st = (Inl e, st)"
  by (simp add: load_table_def)

lemma bogus_type_rejected:
  "load_table self env (PStr ''bogus'') cols limit start_date end_date parts download_dir st =
     (Inl (AssertionError (''Expected obj_type to either '' @ join ''/'' accepted_types
                           @ ''. Found bogus'')), st)"
  by (simp add: load_table_def validate_def accepted_types_def)

lemma works_accepted: "''works'' \<in> set accepted_types"
  by (simp add: accepted_types_def)

text \<open>
  Claim C4, at \<open>load_table(obj_type="works", start_date="08-04-2025")\<close>: the call
  fails in its checks, with the world untouched, but the message of the malformed
  \<open>start_date\<close> names \<open>end_date\<close> and nowhere \<open>start_date\<close>.
\<close>

theorem load_table_bad_start_date_names_end_date:
  "load_table self env (PStr ''works'') PNone PNone (PStr ''08-04-2025'') PNone PNone
      download_dir st
     = (Inl (ValueError (''Expected end_date of the format '' @ sq @ ''YYYY-mm-dd'' @ sq)), st)
   \<and> \<not> mentions (''Expected end_date of the format '' @ sq @ ''YYYY-mm-dd'' @ sq) ''start_date''"
proof
  from day_first_is_no_date show "load_table self env (PStr ''works'') PNone PNone (PStr ''08-04-2025'') PNone PNone
      download_dir st
     = (Inl (ValueError (''Expected end_date of the format '' @ sq @ ''YYYY-mm-dd'' @ sq)), st)"
    by (simp add: load_table_def validate_def works_accepted)
  show "\<not> mentions (''Expected end_date of the format '' @ sq @ ''YYYY-mm-dd'' @ sq) ''start_date''"
    by code_simp
qed

text \<open>
  Claim C9, on the code. With \<open>start_date\<close> omitted the default is asked of
  \<open>__get_start_date\<close>, which raises \<open>AttributeError\<close>; with \<open>end_date\<close> omitted
  the default is the \<open>date\<close> object of today, which \<open>__get_files\<close> hands to
  \<open>fromisoformat\<close>, a \<open>TypeError\<close>. Either way the call ends after creating the
  staging directory, where the same values passed as strings go on to the listing.
\<close>

theorem load_table_defaults_raise:
  "load_table (init n p) env (PStr ''works'') PNone PNone PNone PNone PNone download_dir st
     = (Inl no_obj_type, makedirs download_dir st)
   \<and> load_table self env (PStr ''works'') PNone PNone (PStr ''2025-08-04'') PNone PNone
        download_dir st
     = (Inl (TypeError ''fromisoformat: argument must be str''), makedirs download_dir st)"
proof
  have v: "validate env (PStr ''works'') PNone PNone PNone PNone PNone = None"
    by (simp add: validate_def works_accepted)
  show "load_table (init n p) env (PStr ''works'') PNone PNone PNone PNone PNone download_dir st
     = (Inl no_obj_type, makedirs download_dir st)"
    by (simp add: load_table_def v load_body_def get_start_date_def init_def)
  have f: "fromisoformat (iso_extended env) ''2025-08-04'' = Some (Date 2025 8 4)"
    by (rule august_dates)
  have v': "validate env (PStr ''works'') PNone PNone (PStr ''2025-08-04'') PNone PNone = None"
    by (simp add: validate_def works_accepted check_date_fmt_def f)
  show "load_table self env (PStr ''works'') PNone PNone (PStr ''2025-08-04'') PNone PNone
        download_dir st
     = (Inl (TypeError ''fromisoformat: argument must be str''), makedirs download_dir st)"
    by (simp add: load_table_def v' load_body_def download_files_def get_files_def f)
qed

section \<open>The log and its readings\<close>

lemma log_event_simps [simp]:
  "tables (log_event e st) = tables st"
  "dirs (log_event e st) = dirs st"
  "trace (log_event e st) = trace st @ [e]"
  by (simp_all add: log_event_def)

lemma readings_append [simp]:
  "submitted (a @ b) = submitted a @ submitted b"
  "logged (a @ b) = logged a @ logged b"
  "statements (a @ b) = statements a @ statements b"
  "outcomes (a @ b) = outcomes a @ outcomes b"
  by (simp_all add: submitted_def logged_def statements_def outcomes_def)

lemma readings_Nil [simp]:
  "submitted [] = []" "logged [] = []" "statements [] = []" "outcomes [] = []"
  by (simp_all add: submitted_def logged_def statements_def outcomes_def)

lemma readings_Cons:
  "submitted (ev # evs) = (case ev of Submit f \<Rightarrow> [f] | _ \<Rightarrow> []) @ submitted evs"
  "logged (ev # evs) = (case ev of LogError f e \<Rightarrow> [f] | _ \<Rightarrow> []) @ logged evs"
  "statements (ev # evs) = (case ev of Execute q x \<Rightarrow> [q] | _ \<Rightarrow> []) @ statements evs"
  "outcomes (ev # evs) = (case ev of Execute q x \<Rightarrow> [x] | _ \<Rightarrow> []) @ outcomes evs"
  by (simp_all add: submitted_def logged_def statements_def outcomes_def)

lemma new_events_append: "trace st' = trace st @ evs \<Longrightarrow> new_events st st' = evs"
  by (simp add: new_events_def)

lemma files_in_log_event [simp]: "files_in (log_event e st) d = files_in st d"
  by (simp add: files_in_def)

section \<open>Steps that run no statement\<close>

lemma quiet_refl: "quiet st st"
  by (simp add: quiet_def)

lemma quiet_trans: "quiet st st1 \<Longrightarrow> quiet st1 st2 \<Longrightarrow> quiet st st2"
  by (auto simp: quiet_def)

lemma quiet_log_event:
  "(\<And>q x. e \<noteq> Execute q x) \<Longrightarrow> quiet st (log_event e st)"
  by (cases e) (auto simp: quiet_def readings_Cons)

lemma quiet_makedirs: "quiet st (makedirs d st)"
  by (simp add: quiet_def makedirs_def readings_Cons)

lemma dirs_makedirs: "dirs (makedirs d st) d = Some (files_in st d)"
  by (simp add: makedirs_def files_in_def)

lemma files_in_makedirs: "files_in (makedirs d st) d' = files_in st d'"
  by (simp add: makedirs_def files_in_def)

lemma trace_makedirs: "trace (makedirs d st) = trace st @ [MakeDirs d]"
  by (simp add: makedirs_def)

lemma tables_makedirs: "tables (makedirs d st) = tables st"
  by (simp add: makedirs_def)

lemma copy_data_frame [simp]:
  "tables (copy_data env key d st) = tables st"
  "trace (copy_data env key d st) = trace st"
  by (simp_all add: copy_data_def split: option.splits)

lemma copy_data_keeps_dir: "dirs st d' \<noteq> None \<Longrightarrow> dirs (copy_data env key d st) d' \<noteq> None"
  by (simp add: copy_data_def split: option.splits)

lemma files_in_copy_data:
  "dirs st d \<noteq> None \<Longrightarrow>
   set (files_in (copy_data env key d st) d) =
     set (files_in st d) \<union> (if copy_ok env key then {staged_name key} else {})"
  by (auto simp: copy_data_def files_in_def split: option.splits)

lemma fetch_all_frame:
  "tables (fetch_all env d files st) = tables st
   \<and> trace (fetch_all env d files st) = trace st @ fetch_events env files"
  by (induction files arbitrary: st) (auto split: sum.splits)

lemma fetch_all_keeps_dir:
  "dirs st d' \<noteq> None \<Longrightarrow> dirs (fetch_all env d files st) d' \<noteq> None"
proof (induction files arbitrary: st)
  case Nil
  then show ?case by simp
next
  case (Cons f fs)
  show ?case
  proof (cases "head_object env f")
    case (Inl e)
    with Cons.IH[of "log_event (LogError f e) (log_event (HeadObject f) st)"] Cons.prems
    show ?thesis by simp
  next
    case (Inr sz)
    let ?st = "copy_data env f d (log_event (Submit f) (log_event (HeadObject f) st))"
    have "dirs ?st d' \<noteq> None"
      using Cons.prems by (simp add: copy_data_keeps_dir)
    from Cons.IH[OF this] Inr show ?thesis by simp
  qed
qed

lemma files_in_fetch_all:
  "dirs st d \<noteq> None \<Longrightarrow>
   set (files_in (fetch_all env d files st) d) =
     set (files_in st d)
     \<union> staged_name ` {f \<in> set files. \<not> isl (head_object env f) \<and> copy_ok env f}"
proof (induction files arbitrary: st)
  case Nil
  then show ?case by simp
next
  case (Cons f fs)
  show ?case
  proof (cases "head_object env f")
    case (Inl e)
    with Cons show ?thesis by auto
  next
    case (Inr sz)
    let ?st = "copy_data env f d (log_event (Submit f) (log_event (HeadObject f) st))"
    have d: "dirs ?st d \<noteq> None"
      using Cons.prems by (simp add: copy_data_keeps_dir)
    have "set (files_in ?st d) =
            set (files_in st d) \<union> (if copy_ok env f then {staged_name f} else {})"
      using files_in_copy_data[of "log_event (Submit f) (log_event (HeadObject f) st)" d env f]
        Cons.prems by simp
    with Cons.IH[OF d] Inr show ?thesis by auto
  qed
qed

lemma fetch_events_readings:
  "submitted (fetch_events env files) = filter (\<lambda>f. \<not> isl (head_object env f)) files"
  "logged (fetch_events env files) = filter (\<lambda>f. isl (head_object env f)) files"
  "statements (fetch_events env files) = []"
  "outcomes (fetch_events env files) = []"
  by (induction files) (auto simp: readings_Cons split: sum.splits)

lemma quiet_fetch_all: "quiet st (fetch_all env d files st)"
  by (simp add: quiet_def fetch_all_frame fetch_events_readings)

lemma get_files_frame:
  "get_files env obj_type start_date end_date st = (r, st') \<Longrightarrow>
   tables st' = tables st \<and> dirs st' = dirs st
   \<and> (trace st' = trace st \<or> trace st' = trace st @ [ListObjects (prefix_of obj_type)])"
  by (auto simp: get_files_def split: sum.splits)

lemma get_files_ok:
  "get_files env obj_type start_date end_date st = (Inr files, st') \<Longrightarrow>
   st' = log_event (ListObjects (prefix_of obj_type)) st
   \<and> (\<exists>s. start_date = PStr s) \<and> (\<exists>s. end_date = PStr s)"
  by (cases start_date; cases end_date) (auto simp: get_files_def split: sum.splits option.splits)

lemma quiet_get_files:
  "get_files env obj_type start_date end_date st = (r, st') \<Longrightarrow> quiet st st'"
  by (auto simp: get_files_def quiet_def readings_Cons split: sum.splits)

lemma get_start_date_frame:
  "get_start_date self env st = (r, st') \<Longrightarrow> quiet st st' \<and> dirs st' = dirs st"
  by (auto simp: get_start_date_def quiet_def readings_Cons split: option.splits)

lemma download_files_frame:
  assumes "download_files env obj_type start_date end_date parts d st = (r, st')"
  shows "quiet st st' \<and> (\<forall>d'. dirs st d' \<noteq> None \<longrightarrow> dirs st' d' \<noteq> None)"
proof (cases "get_files env obj_type start_date end_date st")
  case (Pair r1 st1)
  from get_files_frame[OF Pair] quiet_get_files[OF Pair]
  have q1: "quiet st st1" and d1: "dirs st1 = dirs st" by simp_all
  show ?thesis
  proof (cases r1)
    case (Inl e)
    with assms Pair q1 d1 show ?thesis by (simp add: download_files_def)
  next
    case (Inr files)
    show ?thesis
    proof (cases "if parts \<noteq> PStr ''*'' then filter_parts parts files else Inr files")
      case (Inl e)
      with assms Pair Inr q1 d1 show ?thesis by (simp add: download_files_def)
    next
      case files': (Inr files')
      with assms Pair Inr have "st' = fetch_all env d files' st1"
        by (simp add: download_files_def)
      with q1 d1 quiet_fetch_all[of st1 env d files'] fetch_all_keeps_dir[of st1 _ env d files']
      show ?thesis by (auto intro: quiet_trans)
    qed
  qed
qed

section \<open>The statement and the paths of \<open>load_table\<close>\<close>

lemma run_sql_chosen:
  "run_sql env (statement_of self (tables st ot \<noteq> None) ot sel) st =
     (case read_ndjson env sel (files_in st (sel_dir sel)) of
        Inl e \<Rightarrow> (Inl e, st)
      | Inr rows \<Rightarrow> (Inr rows, st\<lparr>tables := (tables st)(ot \<mapsto> table_after self st ot rows)\<rparr>))"
  by (cases "tables st ot")
     (auto simp: statement_of_def create_as_def run_select_def table_after_def kind_of_def
           split: sum.splits)

lemma create_or_insert_result:
  "create_or_insert self env ot cols limit d st =
     (let sel = \<lparr>sel_cols = cols, sel_dir = d, sel_schema = get_schema env ot,
                 sel_limit = limit\<rparr>;
          q = statement_of self (tables st ot \<noteq> None) ot sel;
          st1 = log_event (QueryTables ot) st
      in case read_ndjson env sel (files_in st d) of
           Inl e \<Rightarrow> (Inl e, log_event (Execute q (Inl e)) st1)
         | Inr rows \<Rightarrow>
             (Inr (),
              rmtree d (log_event (Execute q (Inr rows))
                 (st1\<lparr>tables := (tables st)(ot \<mapsto> table_after self st ot rows)\<rparr>))))"
proof -
  let ?sel = "\<lparr>sel_cols = cols, sel_dir = d, sel_schema = get_schema env ot, sel_limit = limit\<rparr>"
  let ?st1 = "log_event (QueryTables ot) st"
  have q: "(if 0 < count_tables st ot then InsertInto ot ?sel
            else if persist_path self = None then CreateTemporaryTable ot ?sel
            else CreateTable ot ?sel) = statement_of self (tables ?st1 ot \<noteq> None) ot ?sel"
    by (simp add: statement_of_def count_tables_def split: option.splits)
  have t: "table_after self ?st1 ot = table_after self st ot"
    by (simp add: table_after_def fun_eq_iff)
  show ?thesis
    unfolding create_or_insert_def Let_def q execute_def
    using run_sql_chosen[of env self ?st1 ot ?sel]
    by (simp add: t split: sum.splits)
qed

lemma validate_None_type:
  "validate env obj_type cols limit start_date end_date parts = None \<Longrightarrow>
   obj_type = PStr (str_text obj_type) \<and> str_text obj_type \<in> set accepted_types"
  by (cases obj_type) (auto simp: validate_def split: if_splits)

lemma makedirs_keeps_dirs: "dirs st d' \<noteq> None \<Longrightarrow> dirs (makedirs d st) d' \<noteq> None"
  by (simp add: makedirs_def)

lemma load_body_cases:
  assumes "load_body self env ot cols limit start_date end_date parts d st = (r, st')"
  shows "(isl r \<and> quiet st st' \<and> (\<forall>d'. dirs st d' \<noteq> None \<longrightarrow> dirs st' d' \<noteq> None)
          \<and> dirs st' d \<noteq> None)
       \<or> (\<exists>st3. quiet st st3 \<and> dirs st3 d \<noteq> None
             \<and> (r, st') = create_or_insert self env ot
                             (if cols = PNone then PStr ''*'' else cols) limit d st3)"
proof -
  let ?st1 = "makedirs d st"
  have q1: "quiet st ?st1" by (rule quiet_makedirs)
  have d1: "dirs ?st1 d \<noteq> None" by (simp add: dirs_makedirs)
  have k1: "\<forall>d'. dirs st d' \<noteq> None \<longrightarrow> dirs ?st1 d' \<noteq> None"
    by (simp add: makedirs_keeps_dirs)
  obtain r2 st2 where g: "(if start_date = PNone then get_start_date self env ?st1
                           else (Inr start_date, ?st1)) = (r2, st2)"
    by (cases "if start_date = PNone then get_start_date self env ?st1 else (Inr start_date, ?st1)")
  have q2: "quiet ?st1 st2 \<and> dirs st2 = dirs ?st1"
  proof (cases "start_date = PNone")
    case True
    with g get_start_date_frame[of self env ?st1 r2 st2] show ?thesis by simp
  next
    case False
    with g show ?thesis by (auto simp: quiet_refl)
  qed
  from q1 q2 have q02: "quiet st st2" by (blast intro: quiet_trans)
  show ?thesis
  proof (cases r2)
    case (Inl e)
    with assms g have "r = Inl e" "st' = st2"
      by (simp_all add: load_body_def Let_def)
    with q02 q2 d1 k1 show ?thesis by simp
  next
    case (Inr sd)
    let ?ed = "if end_date = PNone then PDate (today env) else end_date"
    let ?parts = "if parts = PNone then PStr ''*'' else parts"
    obtain r3 st3 where dl: "download_files env ot sd ?ed ?parts d st2 = (r3, st3)"
      by (cases "download_files env ot sd ?ed ?parts d st2")
    from download_files_frame[OF dl]
    have q3: "quiet st2 st3" and k3: "\<forall>d'. dirs st2 d' \<noteq> None \<longrightarrow> dirs st3 d' \<noteq> None"
      by simp_all
    from q02 q3 have q03: "quiet st st3" by (blast intro: quiet_trans)
    from k3 q2 d1 have d3: "dirs st3 d \<noteq> None" by simp
    from k3 q2 k1 have k03: "\<forall>d'. dirs st d' \<noteq> None \<longrightarrow> dirs st3 d' \<noteq> None" by simp
    show ?thesis
    proof (cases r3)
      case (Inl e)
      with assms g Inr dl have "r = Inl e" "st' = st3"
        by (simp_all add: load_body_def Let_def)
      with q03 d3 k03 show ?thesis by simp
    next
      case r3: (Inr u)
      with assms g Inr dl have
        "(r, st') = create_or_insert self env ot (if cols = PNone then PStr ''*'' else cols)
                      limit d st3"
        by (simp add: load_body_def Let_def)
      with q03 d3 show ?thesis by blast
    qed
  qed
qed

lemma load_table_cases:
  assumes "load_table self env obj_type cols limit start_date end_date parts d st = (r, st')"
  shows "(isl r \<and> quiet st st' \<and> (\<forall>d'. dirs st d' \<noteq> None \<longrightarrow> dirs st' d' \<noteq> None))
       \<or> (\<exists>st3. quiet st st3 \<and> dirs st3 d \<noteq> None
             \<and> obj_type = PStr (str_text obj_type)
             \<and> str_text obj_type \<in> set accepted_types
             \<and> (r, st') = create_or_insert self env (str_text obj_type)
                             (if cols = PNone then PStr ''*'' else cols) limit d st3)"
proof (cases "validate env obj_type cols limit start_date end_date parts")
  case None
  with assms have
    "load_body self env (str_text obj_type) cols limit start_date end_date parts d st = (r, st')"
    by (simp add: load_table_def)
  from load_body_cases[OF this] validate_None_type[OF None] show ?thesis by blast
next
  case (Some e)
  with assms have "r = Inl e" "st' = st" by (simp_all add: load_table_def)
  then show ?thesis by (simp add: quiet_refl)
qed


text \<open>What the statement phase adds after a quiet prefix.\<close>

lemma create_or_insert_after_quiet:
  assumes q: "quiet st st3"
    and c: "(r, st') = create_or_insert self env ot cols limit d st3"
  defines "sel \<equiv> \<lparr>sel_cols = cols, sel_dir = d, sel_schema = get_schema env ot,
                   sel_limit = limit\<rparr>"
  defines "x \<equiv> read_ndjson env sel (files_in st3 d)"
  shows "outcomes (new_events st st') = [x]"
    and "statements (new_events st st') = [statement_of self (tables st ot \<noteq> None) ot sel]"
    and "r = (case x of Inl e \<Rightarrow> Inl e | Inr rows \<Rightarrow> Inr ())"
    and "tables st' = (case x of Inl e \<Rightarrow> tables st
                       | Inr rows \<Rightarrow> (tables st)(ot \<mapsto> table_after self st ot rows))"
    and "dirs st' = (case x of Inl e \<Rightarrow> dirs st3 | Inr rows \<Rightarrow> (dirs st3)(d := None))"
    and "trace st' \<noteq> [] \<and> last (trace st') = (case x of Inl e \<Rightarrow> Execute (statement_of self (tables st ot \<noteq> None) ot sel) x
                                 | Inr rows \<Rightarrow> RmTree d)"
    and "\<exists>evs. trace st' = trace st @ evs"
proof -
  from q obtain evs where t: "tables st3 = tables st" and e: "trace st3 = trace st @ evs"
    and o: "statements evs = []" "outcomes evs = []"
    by (auto simp: quiet_def)
  have ta: "table_after self st3 ot = table_after self st ot"
    by (simp add: table_after_def t fun_eq_iff)
  show "outcomes (new_events st st') = [x]"
    using c e o unfolding create_or_insert_result Let_def
    by (cases x) (auto simp: x_def sel_def new_events_def rmtree_def readings_Cons)
  show "statements (new_events st st') = [statement_of self (tables st ot \<noteq> None) ot sel]"
    using c e o t unfolding create_or_insert_result Let_def
    by (cases x) (auto simp: x_def sel_def new_events_def rmtree_def readings_Cons)
  show "r = (case x of Inl e \<Rightarrow> Inl e | Inr rows \<Rightarrow> Inr ())"
    using c unfolding create_or_insert_result Let_def
    by (cases x) (auto simp: x_def sel_def)
  show "tables st' = (case x of Inl e \<Rightarrow> tables st
                       | Inr rows \<Rightarrow> (tables st)(ot \<mapsto> table_after self st ot rows))"
    using c t ta unfolding create_or_insert_result Let_def
    by (cases x) (auto simp: x_def sel_def rmtree_def)
  show "dirs st' = (case x of Inl e \<Rightarrow> dirs st3 | Inr rows \<Rightarrow> (dirs st3)(d := None))"
    using c unfolding create_or_insert_result Let_def
    by (cases x) (auto simp: x_def sel_def rmtree_def)
  show "trace st' \<noteq> [] \<and> last (trace st') = (case x of Inl e \<Rightarrow> Execute (statement_of self (tables st ot \<noteq> None) ot sel) x
                                 | Inr rows \<Rightarrow> RmTree d)"
    using c t unfolding create_or_insert_result Let_def
    by (cases x) (auto simp: x_def sel_def rmtree_def)
  show "\<exists>evs. trace st' = trace st @ evs"
    using c e unfolding create_or_insert_result Let_def
    by (cases x) (auto simp: x_def sel_def rmtree_def)
qed

lemma load_table_ok:
  assumes "load_table self env (PStr ot) cols limit start_date end_date parts d st = (Inr u, st')"
  shows "\<exists>rows sel.
           outcomes (new_events st st') = [Inr rows]
         \<and> statements (new_events st st') = [statement_of self (tables st ot \<noteq> None) ot sel]
         \<and> tables st' = (tables st)(ot \<mapsto> table_after self st ot rows)
         \<and> (\<exists>evs. trace st' = trace st @ evs)"
proof -
  from load_table_cases[OF assms] obtain st3 where q: "quiet st st3"
    and c: "(Inr u, st') = create_or_insert self env ot
                           (if cols = PNone then PStr ''*'' else cols) limit d st3"
    by auto
  note f = create_or_insert_after_quiet[OF q c]
  from f(3) obtain rows where x: "read_ndjson env
      \<lparr>sel_cols = (if cols = PNone then PStr ''*'' else cols), sel_dir = d,
        sel_schema = get_schema env ot, sel_limit = limit\<rparr> (files_in st3 d) = Inr rows"
    by (auto split: sum.splits)
  from f(1) f(2) f(4) f(7) x show ?thesis by auto
qed

lemma new_events_trans:
  "trace st1 = trace st @ e1 \<Longrightarrow> trace st2 = trace st1 @ e2 \<Longrightarrow>
   new_events st st2 = new_events st st1 @ new_events st1 st2"
  by (simp add: new_events_def)

lemma ingested_append [simp]: "ingested (a @ b) = ingested a @ ingested b"
  by (simp add: ingested_def)

lemma ingested_single: "outcomes evs = [Inr rows] \<Longrightarrow> ingested evs = rows"
  by (simp add: ingested_def)

lemma run_loads_appends:
  assumes "tables st ot = Some (k, old)"
    and "run_loads self (PStr ot) calls st = (Inr (), st')"
  shows "tables st' ot = Some (k, old @ ingested (new_events st st'))
       \<and> (\<forall>n. n \<noteq> ot \<longrightarrow> tables st' n = tables st n)
       \<and> list_all (\<lambda>q. \<not> is_create q \<and> sql_table q = ot) (statements (new_events st st'))
       \<and> length (statements (new_events st st')) = length calls
       \<and> (\<exists>evs. trace st' = trace st @ evs)"
  using assms
proof (induction calls arbitrary: st old)
  case Nil
  then show ?case by (simp add: new_events_def ingested_def)
next
  case (Cons c cs)
  obtain r1 st1 where l: "load_table self (c_env c) (PStr ot) (c_cols c) (c_limit c)
       (c_start_date c) (c_end_date c) (c_parts c) (c_download_dir c) st = (r1, st1)"
    by (cases "load_table self (c_env c) (PStr ot) (c_cols c) (c_limit c)
       (c_start_date c) (c_end_date c) (c_parts c) (c_download_dir c) st")
  with Cons.prems(2) obtain u where r1: "r1 = Inr u" and rest: "run_loads self (PStr ot) cs st1 = (Inr (), st')"
    by (cases r1) auto
  from load_table_ok[OF l[unfolded r1]] obtain rows sel e1 where
    o: "outcomes (new_events st st1) = [Inr rows]"
    and s: "statements (new_events st st1) = [statement_of self (tables st ot \<noteq> None) ot sel]"
    and t: "tables st1 = (tables st)(ot \<mapsto> table_after self st ot rows)"
    and e1: "trace st1 = trace st @ e1"
    by blast
  from t Cons.prems(1) have t1: "tables st1 ot = Some (k, old @ rows)"
    by (simp add: table_after_def)
  from Cons.IH[OF t1 rest] obtain e2 where
    i1: "tables st' ot = Some (k, (old @ rows) @ ingested (new_events st1 st'))"
    and i2: "\<forall>n. n \<noteq> ot \<longrightarrow> tables st' n = tables st1 n"
    and i3: "list_all (\<lambda>q. \<not> is_create q \<and> sql_table q = ot) (statements (new_events st1 st'))"
    and i4: "length (statements (new_events st1 st')) = length cs"
    and e2: "trace st' = trace st1 @ e2"
    by blast
  note n = new_events_trans[OF e1 e2]
  have "tables st' ot = Some (k, old @ ingested (new_events st st'))"
    using i1 by (simp add: n ingested_single[OF o])
  moreover have "\<forall>n. n \<noteq> ot \<longrightarrow> tables st' n = tables st n"
    using i2 t by simp
  moreover have "list_all (\<lambda>q. \<not> is_create q \<and> sql_table q = ot) (statements (new_events st st'))"
    using i3 s Cons.prems(1) by (simp add: n statement_of_def)
  moreover have "length (statements (new_events st st')) = length (c # cs)"
    using i4 s by (simp add: n)
  moreover have "\<exists>evs. trace st' = trace st @ evs"
    using e1 e2 by simp
  ultimately show ?case by blast
qed

lemma validate_None_parts:
  "validate env obj_type cols limit start_date end_date parts = None \<Longrightarrow>
   parts = PNone \<or> is_list parts"
  by (auto simp: validate_def split: if_splits)

lemma is_list_not_star: "is_list parts \<Longrightarrow> parts \<noteq> PStr s \<and> parts \<noteq> PNone"
  by (cases parts) auto

lemma create_or_insert_pool:
  assumes "(r, st') = create_or_insert self env ot cols limit d st3"
  shows "\<exists>evs. trace st' = trace st3 @ evs \<and> submitted evs = [] \<and> logged evs = []"
  using assms unfolding create_or_insert_result Let_def
  by (auto simp: rmtree_def readings_Cons split: sum.splits)

lemma load_table_reaches_statement:
  assumes v: "validate env obj_type cols limit start_date end_date parts = None"
    and g: "get_files env (str_text obj_type) start_date end_date (makedirs d st) = (Inr files, st2)"
    and p: "(if parts = PNone then Inr files else filter_parts parts files) = Inr files'"
    and l: "load_table self env obj_type cols limit start_date end_date parts d st = (r, st')"
  shows "(r, st') = create_or_insert self env (str_text obj_type)
                      (if cols = PNone then PStr ''*'' else cols) limit d
                      (fetch_all env d files' st2)"
    and "st2 = log_event (ListObjects (prefix_of (str_text obj_type))) (makedirs d st)"
proof -
  from get_files_ok[OF g]
  have s2: "st2 = log_event (ListObjects (prefix_of (str_text obj_type))) (makedirs d st)"
    and ne: "start_date \<noteq> PNone" "end_date \<noteq> PNone" by auto
  show "st2 = log_event (ListObjects (prefix_of (str_text obj_type))) (makedirs d st)"
    by (rule s2)
  have p': "(if (if parts = PNone then PStr ''*'' else parts) \<noteq> PStr ''*''
             then filter_parts (if parts = PNone then PStr ''*'' else parts) files
             else Inr files) = Inr files'"
    using p validate_None_parts[OF v] is_list_not_star[of parts] by auto
  have "download_files env (str_text obj_type) start_date end_date
          (if parts = PNone then PStr ''*'' else parts) d (makedirs d st)
        = (Inr (), fetch_all env d files' st2)"
    unfolding download_files_def g using p' by simp
  with l v ne show "(r, st') = create_or_insert self env (str_text obj_type)
                      (if cols = PNone then PStr ''*'' else cols) limit d
                      (fetch_all env d files' st2)"
    by (simp add: load_table_def load_body_def Let_def)
qed

lemma staged_after_download:
  assumes "files_in st d = []"
  shows "set (files_in (fetch_all env d files
                 (log_event (ListObjects pre) (makedirs d st))) d)
         = staged_name ` {f \<in> set files. \<not> isl (head_object env f) \<and> copy_ok env f}"
proof -
  let ?st2 = "log_event (ListObjects pre) (makedirs d st)"
  have "dirs ?st2 d \<noteq> None" by (simp add: dirs_makedirs)
  from files_in_fetch_all[OF this, of env files] assms show ?thesis
    by (simp add: files_in_makedirs)
qed

lemma download_trace:
  "trace (fetch_all env d files (log_event (ListObjects pre) (makedirs d st)))
     = trace st @ MakeDirs d # ListObjects pre # fetch_events env files"
  by (simp add: fetch_all_frame trace_makedirs)

lemma quiet_download:
  "quiet st (fetch_all env d files (log_event (ListObjects pre) (makedirs d st)))"
proof -
  have "quiet st (makedirs d st)" by (rule quiet_makedirs)
  moreover have "quiet (makedirs d st) (log_event (ListObjects pre) (makedirs d st))"
    by (rule quiet_log_event) simp
  moreover have "quiet (log_event (ListObjects pre) (makedirs d st))
                   (fetch_all env d files (log_event (ListObjects pre) (makedirs d st)))"
    by (rule quiet_fetch_all)
  ultimately show ?thesis by (blast intro: quiet_trans)
qed

lemma load_table_run:
  assumes v: "validate env obj_type cols limit start_date end_date parts = None"
    and g: "get_files env (str_text obj_type) start_date end_date (makedirs d st) = (Inr files, st2)"
    and p: "(if parts = PNone then Inr files else filter_parts parts files) = Inr files'"
    and e: "files_in st d = []"
    and l: "load_table self env obj_type cols limit start_date end_date parts d st = (r, st')"
  shows "submitted (new_events st st') = filter (\<lambda>f. \<not> isl (head_object env f)) files'
       \<and> logged (new_events st st') = filter (\<lambda>f. isl (head_object env f)) files'
       \<and> (\<exists>staged.
            set staged = staged_name ` {f \<in> set files'. \<not> isl (head_object env f) \<and> copy_ok env f}
          \<and> statements (new_events st st')
              = [statement_of self (tables st (str_text obj_type) \<noteq> None) (str_text obj_type)
                   (select_of env (str_text obj_type) cols limit d)]
          \<and> outcomes (new_events st st')
              = [read_ndjson env (select_of env (str_text obj_type) cols limit d) staged]
          \<and> r = (case read_ndjson env (select_of env (str_text obj_type) cols limit d) staged of
                   Inl err \<Rightarrow> Inl err | Inr rows \<Rightarrow> Inr ())
          \<and> (\<forall>rows. read_ndjson env (select_of env (str_text obj_type) cols limit d) staged
                       = Inr rows \<longrightarrow>
                 tables st' (str_text obj_type)
                   = Some (table_after self st (str_text obj_type) rows)))"
proof -
  let ?ot = "str_text obj_type"
  let ?pre = "prefix_of ?ot"
  let ?st3 = "fetch_all env d files' (log_event (ListObjects ?pre) (makedirs d st))"
  note rs = load_table_reaches_statement[OF v g p l]
  from rs have c: "(r, st') = create_or_insert self env ?ot
                      (if cols = PNone then PStr ''*'' else cols) limit d ?st3"
    by simp
  have q: "quiet st ?st3" by (rule quiet_download)
  note f = create_or_insert_after_quiet[OF q c]
  from create_or_insert_pool[OF c] obtain evs where
    t: "trace st' = trace ?st3 @ evs" and s0: "submitted evs = []" and l0: "logged evs = []"
    by blast
  have n: "new_events st st' = MakeDirs d # ListObjects ?pre # fetch_events env files' @ evs"
    using t by (simp add: new_events_def download_trace)
  have 1: "submitted (new_events st st') = filter (\<lambda>f. \<not> isl (head_object env f)) files'"
    by (simp add: n readings_Cons fetch_events_readings s0)
  have 2: "logged (new_events st st') = filter (\<lambda>f. isl (head_object env f)) files'"
    by (simp add: n readings_Cons fetch_events_readings l0)
  let ?staged = "files_in ?st3 d"
  have 3: "set ?staged = staged_name ` {f \<in> set files'. \<not> isl (head_object env f) \<and> copy_ok env f}"
    by (rule staged_after_download[OF e])
  have sel: "\<lparr>sel_cols = (if cols = PNone then PStr ''*'' else cols), sel_dir = d,
              sel_schema = get_schema env ?ot, sel_limit = limit\<rparr> = select_of env ?ot cols limit d"
    by (simp add: select_of_def)
  have 4: "outcomes (new_events st st') = [read_ndjson env (select_of env ?ot cols limit d) ?staged]"
    using f(1) by (simp add: sel)
  have 5: "r = (case read_ndjson env (select_of env ?ot cols limit d) ?staged of
                   Inl err \<Rightarrow> Inl err | Inr rows \<Rightarrow> Inr ())"
    using f(3) by (simp add: sel)
  have 6: "\<forall>rows. read_ndjson env (select_of env ?ot cols limit d) ?staged = Inr rows \<longrightarrow>
                 tables st' ?ot = Some (table_after self st ?ot rows)"
    using f(4) by (auto simp: sel)
  have 7: "statements (new_events st st')
              = [statement_of self (tables st ?ot \<noteq> None) ?ot (select_of env ?ot cols limit d)]"
    using f(2) by (simp add: sel)
  from 1 2 3 4 5 6 7 show ?thesis by blast
qed

text \<open>The same call when the staging directory may already hold files.\<close>

lemma load_table_run_from:
  assumes v: "validate env obj_type cols limit start_date end_date parts = None"
    and g: "get_files env (str_text obj_type) start_date end_date (makedirs d st) = (Inr files, st2)"
    and p: "(if parts = PNone then Inr files else filter_parts parts files) = Inr files'"
    and l: "load_table self env obj_type cols limit start_date end_date parts d st = (r, st')"
  shows "submitted (new_events st st') = filter (\<lambda>f. \<not> isl (head_object env f)) files'
       \<and> logged (new_events st st') = filter (\<lambda>f. isl (head_object env f)) files'
       \<and> (\<forall>rows. read_ndjson env (select_of env (str_text obj_type) cols limit d)
                     (files_in (fetch_all env d files' st2) d) = Inr rows \<longrightarrow>
              r = Inr ()
              \<and> tables st' (str_text obj_type)
                  = Some (table_after self st (str_text obj_type) rows))
       \<and> (\<forall>err. read_ndjson env (select_of env (str_text obj_type) cols limit d)
                     (files_in (fetch_all env d files' st2) d) = Inl err \<longrightarrow> r = Inl err)"
proof -
  let ?ot = "str_text obj_type"
  let ?pre = "prefix_of ?ot"
  let ?st3 = "fetch_all env d files' (log_event (ListObjects ?pre) (makedirs d st))"
  note rs = load_table_reaches_statement[OF v g p l]
  from rs have c: "(r, st') = create_or_insert self env ?ot
                      (if cols = PNone then PStr ''*'' else cols) limit d ?st3"
    by simp
  have q: "quiet st ?st3" by (rule quiet_download)
  note f = create_or_insert_after_quiet[OF q c]
  from create_or_insert_pool[OF c] obtain evs where
    t: "trace st' = trace ?st3 @ evs" and s0: "submitted evs = []" and l0: "logged evs = []"
    by blast
  have n: "new_events st st' = MakeDirs d # ListObjects ?pre # fetch_events env files' @ evs"
    using t by (simp add: new_events_def download_trace)
  have 1: "submitted (new_events st st') = filter (\<lambda>f. \<not> isl (head_object env f)) files'"
    by (simp add: n readings_Cons fetch_events_readings s0)
  have 2: "logged (new_events st st') = filter (\<lambda>f. isl (head_object env f)) files'"
    by (simp add: n readings_Cons fetch_events_readings l0)
  have sel: "\<lparr>sel_cols = (if cols = PNone then PStr ''*'' else cols), sel_dir = d,
              sel_schema = get_schema env ?ot, sel_limit = limit\<rparr> = select_of env ?ot cols limit d"
    by (simp add: select_of_def)
  have 3: "\<forall>rows. read_ndjson env (select_of env ?ot cols limit d) (files_in ?st3 d) = Inr rows \<longrightarrow>
              r = Inr () \<and> tables st' ?ot = Some (table_after self st ?ot rows)"
    using f(3) f(4) by (auto simp: sel)
  have 4: "\<forall>err. read_ndjson env (select_of env ?ot cols limit d) (files_in ?st3 d) = Inl err \<longrightarrow>
              r = Inl err"
    using f(3) by (auto simp: sel)
  from 1 2 3 4 rs(2) show ?thesis by simp
qed

lemma get_files_result:
  assumes "fromisoformat (iso_extended env) a = Some sd"
    and "fromisoformat (iso_extended env) b = Some ed"
    and "get_files_pages (iso_extended env) sd ed (list_objects env (prefix_of ot)) [] = Inr files"
  shows "get_files env ot (PStr a) (PStr b) st
           = (Inr files, log_event (ListObjects (prefix_of ot)) st)"
  using assms by (simp add: get_files_def)

lemma load_table_succeeds:
  assumes v: "validate env obj_type cols limit start_date end_date parts = None"
    and g: "get_files env (str_text obj_type) start_date end_date (makedirs d st) = (Inr files, st2)"
    and p: "(if parts = PNone then Inr files else filter_parts parts files) = Inr files'"
    and k: "\<And>sel fs. \<exists>rows. read_ndjson env sel fs = Inr rows"
  shows "fst (load_table self env obj_type cols limit start_date end_date parts d st) = Inr ()"
proof -
  let ?R = "load_table self env obj_type cols limit start_date end_date parts d st"
  have l: "?R = (fst ?R, snd ?R)" by simp
  from load_table_reaches_statement(1)[OF v g p l]
  have "fst ?R = fst (create_or_insert self env (str_text obj_type)
                      (if cols = PNone then PStr ''*'' else cols) limit d
                      (fetch_all env d files' st2))"
    by (metis fst_conv)
  also have "\<dots> = Inr ()"
    unfolding create_or_insert_result Let_def
    using k[of "\<lparr>sel_cols = (if cols = PNone then PStr ''*'' else cols), sel_dir = d,
                  sel_schema = get_schema env (str_text obj_type), sel_limit = limit\<rparr>"
               "files_in (fetch_all env d files' st2) d"]
    by auto
  finally show ?thesis .
qed

section \<open>Facts of the sample bucket\<close>

lemma sample_extended: "iso_extended (sample_env no_head strict) = True"
  by (simp add: sample_env_def)

lemma sample_validate:
  "validate (sample_env no_head strict) (PStr ''works'') PNone PNone (PStr ''2025-08-03'') (PStr ''2025-08-03'') PNone = None"
  "validate (sample_env no_head strict) (PStr ''works'') PNone PNone (PStr ''2025-08-03'') (PStr ''2025-08-05'') PNone = None"
  "validate (sample_env no_head strict) (PStr ''works'') PNone PNone (PStr ''2025-08-04'') (PStr ''2025-08-05'') PNone = None"
  "validate (sample_env no_head strict) (PStr ''works'') PNone PNone (PStr ''2025-08-06'') (PStr ''2025-08-06'') PNone = None"
  by (simp_all add: validate_def works_accepted check_date_fmt_def august_dates)

lemma sample_listing:
  "list_objects (sample_env no_head strict) (prefix_of ''works'')
     = [Inr [key_0803, key_0804], Inr [key_manifest, key_0805]]"
  by (simp add: sample_env_def prefix_of_def)

lemma sample_pages:
  "get_files_pages True (Date 2025 8 3) (Date 2025 8 3)
     [Inr [key_0803, key_0804], Inr [key_manifest, key_0805]] [] = Inr [key_0803]"
  "get_files_pages True (Date 2025 8 3) (Date 2025 8 5)
     [Inr [key_0803, key_0804], Inr [key_manifest, key_0805]] []
     = Inr [key_0803, key_0804, key_0805]"
  "get_files_pages True (Date 2025 8 4) (Date 2025 8 5)
     [Inr [key_0803, key_0804], Inr [key_manifest, key_0805]] [] = Inr [key_0804, key_0805]"
  "get_files_pages True (Date 2025 8 6) (Date 2025 8 6)
     [Inr [key_0803, key_0804], Inr [key_manifest, key_0805]] [] = Inr []"
  by code_simp+

lemma sample_get_files:
  "get_files (sample_env no_head strict) ''works'' (PStr ''2025-08-03'') (PStr ''2025-08-03'') st
     = (Inr [key_0803], log_event (ListObjects (prefix_of ''works'')) st)"
  "get_files (sample_env no_head strict) ''works'' (PStr ''2025-08-03'') (PStr ''2025-08-05'') st
     = (Inr [key_0803, key_0804, key_0805], log_event (ListObjects (prefix_of ''works'')) st)"
  "get_files (sample_env no_head strict) ''works'' (PStr ''2025-08-04'') (PStr ''2025-08-05'') st
     = (Inr [key_0804, key_0805], log_event (ListObjects (prefix_of ''works'')) st)"
  "get_files (sample_env no_head strict) ''works'' (PStr ''2025-08-06'') (PStr ''2025-08-06'') st
     = (Inr [], log_event (ListObjects (prefix_of ''works'')) st)"
proof -
  let ?E = "sample_env no_head strict"
  have p: "get_files_pages (iso_extended ?E) (Date 2025 8 3) (Date 2025 8 3)
             (list_objects ?E (prefix_of ''works'')) [] = Inr [key_0803]"
    "get_files_pages (iso_extended ?E) (Date 2025 8 3) (Date 2025 8 5)
             (list_objects ?E (prefix_of ''works'')) [] = Inr [key_0803, key_0804, key_0805]"
    "get_files_pages (iso_extended ?E) (Date 2025 8 4) (Date 2025 8 5)
             (list_objects ?E (prefix_of ''works'')) [] = Inr [key_0804, key_0805]"
    "get_files_pages (iso_extended ?E) (Date 2025 8 6) (Date 2025 8 6)
             (list_objects ?E (prefix_of ''works'')) [] = Inr []"
    by (simp_all only: sample_extended sample_listing sample_pages)
  show "get_files ?E ''works'' (PStr ''2025-08-03'') (PStr ''2025-08-03'') st
     = (Inr [key_0803], log_event (ListObjects (prefix_of ''works'')) st)"
    by (rule get_files_result[OF august_dates(1) august_dates(1) p(1)])
  show "get_files ?E ''works'' (PStr ''2025-08-03'') (PStr ''2025-08-05'') st
     = (Inr [key_0803, key_0804, key_0805], log_event (ListObjects (prefix_of ''works'')) st)"
    by (rule get_files_result[OF august_dates(1) august_dates(3) p(2)])
  show "get_files ?E ''works'' (PStr ''2025-08-04'') (PStr ''2025-08-05'') st
     = (Inr [key_0804, key_0805], log_event (ListObjects (prefix_of ''works'')) st)"
    by (rule get_files_result[OF august_dates(2) august_dates(3) p(3)])
  show "get_files ?E ''works'' (PStr ''2025-08-06'') (PStr ''2025-08-06'') st
     = (Inr [], log_event (ListObjects (prefix_of ''works'')) st)"
    by (rule get_files_result[OF august_dates(4) august_dates(4) p(4)])
qed

lemma sample_reader:
  "read_ndjson (sample_env no_head False) sel fs = Inr fs"
  "read_ndjson (sample_env no_head True) sel [] = Inl (EngineError ''No files found'')"
  by (simp_all add: sample_env_def)

lemma empty_staging: "files_in empty_state d = []"
  by (simp add: files_in_def empty_state_def)

lemma sample_keys_distinct:
  "key_0803 \<noteq> key_0805" "key_0804 \<noteq> key_0805"
  by (simp_all add: key_0803_def key_0804_def key_0805_def)

lemma sample_load_ok:
  "fst (load_table self (sample_env [] False) (PStr ''works'') PNone PNone
          (PStr ''2025-08-03'') (PStr ''2025-08-03'') PNone d st) = Inr ()"
  "fst (load_table self (sample_env [] False) (PStr ''works'') PNone PNone
          (PStr ''2025-08-04'') (PStr ''2025-08-05'') PNone d st) = Inr ()"
proof -
  have k: "\<And>sel fs. \<exists>rows. read_ndjson (sample_env [] False) sel fs = Inr rows"
    by (simp add: sample_reader)
  have p: "\<And>files. (if PNone = PNone then Inr files else filter_parts PNone files) = Inr files"
    by simp
  show "fst (load_table self (sample_env [] False) (PStr ''works'') PNone PNone
          (PStr ''2025-08-03'') (PStr ''2025-08-03'') PNone d st) = Inr ()"
    by (rule load_table_succeeds[OF sample_validate(1) _ p k]) (simp add: sample_get_files)
  show "fst (load_table self (sample_env [] False) (PStr ''works'') PNone PNone
          (PStr ''2025-08-04'') (PStr ''2025-08-05'') PNone d st) = Inr ()"
    by (rule load_table_succeeds[OF sample_validate(3) _ p k]) (simp add: sample_get_files)
qed

section \<open>TableLoader: one table per entity type\<close>

text \<open>
  Claim C3. On one connection, take any sequence of \<open>load_table\<close> calls for one entity
  type that all succeed, from a store that has no table of that name. Then the first call
  runs a \<open>CREATE\<close> for the table named after the entity type and every later call an
  \<open>INSERT INTO\<close> it, one statement per call; the table is temporary when no persistence
  path is configured and durable otherwise; it ends holding, in order, the rows that the
  calls ingested, so that its row count is the sum of theirs; and no other table changes.
\<close>

theorem load_table_creates_once_then_appends:
  assumes "tables st ot = None"
    and "run_loads self (PStr ot) (c # cs) st = (Inr (), st')"
  shows "tables st' ot = Some (kind_of self, ingested (new_events st st'))
       \<and> (\<forall>n. n \<noteq> ot \<longrightarrow> tables st' n = tables st n)
       \<and> (\<exists>q qs. statements (new_events st st') = q # qs
              \<and> is_create q \<and> sql_table q = ot
              \<and> list_all (\<lambda>q. \<not> is_create q \<and> sql_table q = ot) qs
              \<and> length qs = length cs)"
proof -
  obtain r1 st1 where l: "load_table self (c_env c) (PStr ot) (c_cols c) (c_limit c)
       (c_start_date c) (c_end_date c) (c_parts c) (c_download_dir c) st = (r1, st1)"
    by (cases "load_table self (c_env c) (PStr ot) (c_cols c) (c_limit c)
       (c_start_date c) (c_end_date c) (c_parts c) (c_download_dir c) st")
  with assms(2) obtain u where r1: "r1 = Inr u" and rest: "run_loads self (PStr ot) cs st1 = (Inr (), st')"
    by (cases r1) auto
  from load_table_ok[OF l[unfolded r1]] obtain rows sel e1 where
    o: "outcomes (new_events st st1) = [Inr rows]"
    and s: "statements (new_events st st1) = [statement_of self (tables st ot \<noteq> None) ot sel]"
    and t: "tables st1 = (tables st)(ot \<mapsto> table_after self st ot rows)"
    and e1: "trace st1 = trace st @ e1"
    by blast
  from t assms(1) have t1: "tables st1 ot = Some (kind_of self, rows)"
    by (simp add: table_after_def)
  from run_loads_appends[OF t1 rest] obtain e2 where
    i1: "tables st' ot = Some (kind_of self, rows @ ingested (new_events st1 st'))"
    and i2: "\<forall>n. n \<noteq> ot \<longrightarrow> tables st' n = tables st1 n"
    and i3: "list_all (\<lambda>q. \<not> is_create q \<and> sql_table q = ot) (statements (new_events st1 st'))"
    and i4: "length (statements (new_events st1 st')) = length cs"
    and e2: "trace st' = trace st1 @ e2"
    by blast
  note n = new_events_trans[OF e1 e2]
  have "tables st' ot = Some (kind_of self, ingested (new_events st st'))"
    using i1 by (simp add: n ingested_single[OF o])
  moreover have "\<forall>n. n \<noteq> ot \<longrightarrow> tables st' n = tables st n"
    using i2 t by simp
  moreover have "\<exists>q qs. statements (new_events st st') = q # qs
              \<and> is_create q \<and> sql_table q = ot
              \<and> list_all (\<lambda>q. \<not> is_create q \<and> sql_table q = ot) qs
              \<and> length qs = length cs"
    using i3 i4 s assms(1) by (simp add: n statement_of_def)
  ultimately show ?thesis by blast
qed

theorem load_table_creates_once_then_appends_witness:
  "fst (run_loads (init 4 None) (PStr ''works'') [call_0803, call_0804] empty_state) = Inr ()
   \<and> tables (snd (run_loads (init 4 None) (PStr ''works'') [call_0803, call_0804] empty_state))
        ''works''
     = Some (Temporary,
             ingested (new_events empty_state
               (snd (run_loads (init 4 None) (PStr ''works'') [call_0803, call_0804]
                       empty_state))))"
proof -
  let ?R = "run_loads (init 4 None) (PStr ''works'') [call_0803, call_0804] empty_state"
  have ok: "fst ?R = Inr ()"
    by (simp add: call_0803_def call_0804_def sample_load_ok split: prod.splits sum.splits)
       (metis fst_conv sample_load_ok sum.distinct(1))
  then have r: "?R = (Inr (), snd ?R)"
    by (metis prod.collapse)
  have t: "tables empty_state ''works'' = None"
    by (simp add: empty_state_def)
  from load_table_creates_once_then_appends[OF t r] ok show ?thesis
    by (simp add: kind_of_def init_def)
qed

section \<open>TableLoader: the staging directory\<close>



section \<open>Downloader: a failed size lookup\<close>

text \<open>
  Claim C7, as the code has it. Let a call pass its checks, list the files \<open>files\<close> of
  the date range and keep \<open>files'\<close> after the filter on the parts, with the staging
  directory empty at the start. Then the keys submitted to the pool are exactly the kept
  files whose size lookup succeeded, and the keys logged as errors exactly those whose
  lookup failed: a failed lookup ends neither the loop nor the call. The one statement of
  the call reads a staging directory that holds the files of submitted keys only (those
  whose download ended well). The call raises exactly when that statement raises, with
  the statement's error, and when the statement returns rows the call returns normally
  with those rows in the table.
\<close>

theorem load_table_skips_failed_lookups:
  assumes v: "validate env obj_type cols limit start_date end_date parts = None"
    and g: "get_files env (str_text obj_type) start_date end_date (makedirs d st) = (Inr files, st2)"
    and p: "(if parts = PNone then Inr files else filter_parts parts files) = Inr files'"
    and e: "files_in st d = []"
    and l: "load_table self env obj_type cols limit start_date end_date parts d st = (r, st')"
  shows "submitted (new_events st st') = filter (\<lambda>f. \<not> isl (head_object env f)) files'
       \<and> logged (new_events st st') = filter (\<lambda>f. isl (head_object env f)) files'
       \<and> (\<exists>staged.
            set staged = staged_name ` {f \<in> set files'. \<not> isl (head_object env f) \<and> copy_ok env f}
          \<and> outcomes (new_events st st')
              = [read_ndjson env (select_of env (str_text obj_type) cols limit d) staged]
          \<and> r = (case read_ndjson env (select_of env (str_text obj_type) cols limit d) staged of
                   Inl err \<Rightarrow> Inl err | Inr rows \<Rightarrow> Inr ())
          \<and> (\<forall>rows. read_ndjson env (select_of env (str_text obj_type) cols limit d) staged
                       = Inr rows \<longrightarrow>
                 tables st' (str_text obj_type)
                   = Some (table_after self st (str_text obj_type) rows)))"
  using load_table_run[OF v g p e l] by blast

theorem load_table_skips_failed_lookups_witness:
  "submitted (new_events empty_state
      (snd (load_table (init 4 None) (sample_env [key_0805] False) (PStr ''works'') PNone PNone
              (PStr ''2025-08-03'') (PStr ''2025-08-05'') PNone ''./.cache/oa'' empty_state)))
     = [key_0803, key_0804]
   \<and> logged (new_events empty_state
      (snd (load_table (init 4 None) (sample_env [key_0805] False) (PStr ''works'') PNone PNone
              (PStr ''2025-08-03'') (PStr ''2025-08-05'') PNone ''./.cache/oa'' empty_state)))
     = [key_0805]
   \<and> fst (load_table (init 4 None) (sample_env [key_0805] False) (PStr ''works'') PNone PNone
              (PStr ''2025-08-03'') (PStr ''2025-08-05'') PNone ''./.cache/oa'' empty_state)
     = Inr ()"
proof -
  let ?E = "sample_env [key_0805] False"
  let ?R = "load_table (init 4 None) ?E (PStr ''works'') PNone PNone
              (PStr ''2025-08-03'') (PStr ''2025-08-05'') PNone ''./.cache/oa'' empty_state"
  have l: "?R = (fst ?R, snd ?R)" by simp
  have p: "(if PNone = PNone then Inr [key_0803, key_0804, key_0805]
            else filter_parts PNone [key_0803, key_0804, key_0805])
           = Inr [key_0803, key_0804, key_0805]"
    by simp
  have g: "get_files ?E (str_text (PStr ''works'')) (PStr ''2025-08-03'') (PStr ''2025-08-05'')
             (makedirs ''./.cache/oa'' empty_state)
           = (Inr [key_0803, key_0804, key_0805],
              log_event (ListObjects (prefix_of ''works'')) (makedirs ''./.cache/oa'' empty_state))"
    by (simp add: sample_get_files)
  have h: "filter (\<lambda>f. \<not> isl (head_object ?E f)) [key_0803, key_0804, key_0805]
             = [key_0803, key_0804]"
          "filter (\<lambda>f. isl (head_object ?E f)) [key_0803, key_0804, key_0805] = [key_0805]"
    by (simp_all add: sample_env_def sample_keys_distinct)
  from load_table_skips_failed_lookups[OF sample_validate(2) g p empty_staging l, unfolded h]
  show ?thesis
    by (auto simp: sample_reader)
qed

text \<open>
  The claim as it was written fails on two counts. A batch of one file whose size lookup
  fails leaves nothing to read, and an engine that refuses a reader without files makes
  the call raise: an exception does leave \<open>load_table\<close>. And a staging directory
  that a failed call left behind still holds the file of the fifth of August: a call
  whose lookup for that very key fails loads the file all the same, since the statement
  reads whatever the directory holds.
\<close>

theorem load_table_lookup_failure_counterexample:
  "logged (new_events empty_state
      (snd (load_table (init 4 None) (sample_env [key_0803] True) (PStr ''works'') PNone PNone
              (PStr ''2025-08-03'') (PStr ''2025-08-03'') PNone ''./.cache/oa'' empty_state)))
     = [key_0803]
   \<and> fst (load_table (init 4 None) (sample_env [key_0803] True) (PStr ''works'') PNone PNone
              (PStr ''2025-08-03'') (PStr ''2025-08-03'') PNone ''./.cache/oa'' empty_state)
     = Inl (EngineError ''No files found'')
   \<and> logged (new_events leftover_state
      (snd (load_table (init 4 None) (sample_env [key_0805] False) (PStr ''works'') PNone PNone
              (PStr ''2025-08-04'') (PStr ''2025-08-05'') PNone ''./.cache/oa'' leftover_state)))
     = [key_0805]
   \<and> tables
       (snd (load_table (init 4 None) (sample_env [key_0805] False) (PStr ''works'') PNone PNone
              (PStr ''2025-08-04'') (PStr ''2025-08-05'') PNone ''./.cache/oa'' leftover_state))
       ''works''
     = Some (Temporary, [staged_name key_0804, staged_name key_0805])"
proof -
  let ?d = "''./.cache/oa''"
  let ?E1 = "sample_env [key_0803] True"
  let ?E2 = "sample_env [key_0805] False"
  let ?R1 = "load_table (init 4 None) ?E1 (PStr ''works'') PNone PNone
              (PStr ''2025-08-03'') (PStr ''2025-08-03'') PNone ?d empty_state"
  let ?R2 = "load_table (init 4 None) ?E2 (PStr ''works'') PNone PNone
              (PStr ''2025-08-04'') (PStr ''2025-08-05'') PNone ?d leftover_state"
  have l1: "?R1 = (fst ?R1, snd ?R1)" and l2: "?R2 = (fst ?R2, snd ?R2)" by simp_all
  have p: "\<And>files. (if PNone = PNone then Inr files else filter_parts PNone files) = Inr files"
    by simp
  have g1: "get_files ?E1 (str_text (PStr ''works'')) (PStr ''2025-08-03'') (PStr ''2025-08-03'')
             (makedirs ?d empty_state)
           = (Inr [key_0803],
              log_event (ListObjects (prefix_of ''works'')) (makedirs ?d empty_state))"
    by (simp add: sample_get_files)
  have g2: "get_files ?E2 (str_text (PStr ''works'')) (PStr ''2025-08-04'') (PStr ''2025-08-05'')
             (makedirs ?d leftover_state)
           = (Inr [key_0804, key_0805],
              log_event (ListObjects (prefix_of ''works'')) (makedirs ?d leftover_state))"
    by (simp add: sample_get_files)
  have h1: "head_object ?E1 key_0803 = Inl (ClientError ''404'')"
    by (simp add: sample_env_def)
  have h2: "head_object ?E2 key_0805 = Inl (ClientError ''404'')"
    "head_object ?E2 key_0804 = Inr 100" "copy_ok ?E2 key_0804"
    by (simp_all add: sample_env_def sample_keys_distinct)
  have s1: "files_in (fetch_all ?E1 ?d [key_0803]
              (log_event (ListObjects (prefix_of ''works'')) (makedirs ?d empty_state))) ?d = []"
    by (simp add: h1 files_in_makedirs empty_staging)
  have k: "staged_name key_0804 \<noteq> staged_name key_0805" by code_simp
  have s2: "files_in (fetch_all ?E2 ?d [key_0804, key_0805]
              (log_event (ListObjects (prefix_of ''works'')) (makedirs ?d leftover_state))) ?d
            = [staged_name key_0804, staged_name key_0805]"
    using k by (simp add: h2 files_in_def copy_data_def makedirs_def leftover_state_def)
  have t: "tables leftover_state ''works'' = None" by (simp add: leftover_state_def)
  from load_table_run_from[OF sample_validate(1) g1 p l1]
  have a: "logged (new_events empty_state (snd ?R1)) = [key_0803]"
    and b: "fst ?R1 = Inl (EngineError ''No files found'')"
    by (simp_all add: h1 s1 sample_reader files_in_makedirs empty_staging)
  from load_table_run_from[OF sample_validate(3) g2 p l2]
  have c: "logged (new_events leftover_state (snd ?R2)) = [key_0805]"
    and e: "tables (snd ?R2) ''works''
              = Some (Temporary, [staged_name key_0804, staged_name key_0805])"
    using s2 by (simp_all add: h2 sample_reader table_after_def t kind_of_def init_def)
  from a b c e show ?thesis by simp
qed

section \<open>An empty staging directory\<close>

text \<open>
  Claim C10. Let a call pass its checks and select its files, and let no file be staged:
  the range or the filter on the parts left none, or for each file left the size lookup
  failed or the download did. With the staging directory empty at the start, the call
  still runs its one create-or-insert statement, over the empty directory, and returns
  or raises as that statement does.
\<close>

theorem load_table_runs_statement_on_empty_staging:
  assumes v: "validate env obj_type cols limit start_date end_date parts = None"
    and g: "get_files env (str_text obj_type) start_date end_date (makedirs d st) = (Inr files, st2)"
    and p: "(if parts = PNone then Inr files else filter_parts parts files) = Inr files'"
    and z: "\<forall>f \<in> set files'. isl (head_object env f) \<or> \<not> copy_ok env f"
    and e: "files_in st d = []"
    and l: "load_table self env obj_type cols limit start_date end_date parts d st = (r, st')"
  shows "statements (new_events st st')
           = [statement_of self (tables st (str_text obj_type) \<noteq> None) (str_text obj_type)
                (select_of env (str_text obj_type) cols limit d)]
       \<and> outcomes (new_events st st')
           = [read_ndjson env (select_of env (str_text obj_type) cols limit d) []]
       \<and> r = (case read_ndjson env (select_of env (str_text obj_type) cols limit d) [] of
                Inl err \<Rightarrow> Inl err | Inr rows \<Rightarrow> Inr ())"
proof -
  let ?sel = "select_of env (str_text obj_type) cols limit d"
  from load_table_run[OF v g p e l] obtain staged where
    s: "set staged = staged_name ` {f \<in> set files'. \<not> isl (head_object env f) \<and> copy_ok env f}"
    and q: "statements (new_events st st')
              = [statement_of self (tables st (str_text obj_type) \<noteq> None) (str_text obj_type) ?sel]"
    and o: "outcomes (new_events st st') = [read_ndjson env ?sel staged]"
    and r: "r = (case read_ndjson env ?sel staged of Inl err \<Rightarrow> Inl err | Inr rows \<Rightarrow> Inr ())"
    by blast
  from s z have "set staged = {}" by auto
  then have "staged = []" by simp
  with q o r show ?thesis by simp
qed

theorem load_table_runs_statement_on_empty_staging_witness:
  "statements (new_events empty_state
      (snd (load_table (init 4 None) (sample_env [key_0803, key_0804, key_0805] True)
              (PStr ''works'') PNone PNone (PStr ''2025-08-03'') (PStr ''2025-08-05'') PNone
              ''./.cache/oa'' empty_state)))
     = [CreateTemporaryTable ''works''
          (select_of (sample_env [key_0803, key_0804, key_0805] True) ''works'' PNone PNone
             ''./.cache/oa'')]
   \<and> fst (load_table (init 4 None) (sample_env [key_0803, key_0804, key_0805] True)
              (PStr ''works'') PNone PNone (PStr ''2025-08-03'') (PStr ''2025-08-05'') PNone
              ''./.cache/oa'' empty_state)
     = Inl (EngineError ''No files found'')"
proof -
  let ?E = "sample_env [key_0803, key_0804, key_0805] True"
  let ?R = "load_table (init 4 None) ?E (PStr ''works'') PNone PNone
              (PStr ''2025-08-03'') (PStr ''2025-08-05'') PNone ''./.cache/oa'' empty_state"
  have l: "?R = (fst ?R, snd ?R)" by simp
  have p: "(if PNone = PNone then Inr [key_0803, key_0804, key_0805]
            else filter_parts PNone [key_0803, key_0804, key_0805])
           = Inr [key_0803, key_0804, key_0805]"
    by simp
  have g: "get_files ?E (str_text (PStr ''works'')) (PStr ''2025-08-03'') (PStr ''2025-08-05'')
             (makedirs ''./.cache/oa'' empty_state)
           = (Inr [key_0803, key_0804, key_0805],
              log_event (ListObjects (prefix_of ''works'')) (makedirs ''./.cache/oa'' empty_state))"
    by (simp add: sample_get_files)
  have z: "\<forall>f \<in> set [key_0803, key_0804, key_0805]. isl (head_object ?E f) \<or> \<not> copy_ok ?E f"
    by (simp add: sample_env_def)
  have t: "tables empty_state ''works'' = None"
    by (simp add: empty_state_def)
  from load_table_runs_statement_on_empty_staging[OF sample_validate(2) g p z empty_staging l]
  show ?thesis
    by (simp add: sample_reader t statement_of_def init_def)
qed

end
